theory Spec2Isabelle
  imports Main
begin

section \<open>Byte strings and the string helpers of the Go standard library\<close>

text \<open>
  A Go \<open>[]byte\<close> and a Go \<open>string\<close> are both sequences of bytes: they are modelled by
  \<open>string\<close> (\<open>char list\<close>, one \<open>char\<close> per byte). The bytes that have no spelling inside
  a HOL string literal are named here.
\<close>

definition tab :: char where
  "tab = CHR 0x09"

definition nl :: char where
  "nl = CHR 0x0A"

definition dq :: char where
  "dq = CHR 0x22"

definition bq :: char where
  "bq = CHR 0x60"

text \<open>\<open>strings.HasPrefix\<close> and \<open>strings.TrimPrefix\<close>.\<close>

definition HasPrefix :: "string \<Rightarrow> string \<Rightarrow> bool" where
  "HasPrefix s p = (take (length p) s = p)"

definition TrimPrefix :: "string \<Rightarrow> string \<Rightarrow> string" where
  "TrimPrefix s p = (if HasPrefix s p then drop (length p) s else s)"

definition HasSuffix :: "string \<Rightarrow> string \<Rightarrow> bool" where
  "HasSuffix s p = (length p \<le> length s \<and> drop (length s - length p) s = p)"

text \<open>
  \<open>strings.TrimSpace\<close> removes every leading and every trailing white-space code point
  (\<open>unicode.IsSpace\<close>). On the UTF-8 bytes of the string these are the six ASCII bytes
  and the encodings of U+0085, U+00A0, U+1680, U+2000..U+200A, U+2028, U+2029, U+202F,
  U+205F and U+3000.
\<close>

definition spaceSeqs :: "string list" where
  "spaceSeqs =
     [[CHR 0x09], [CHR 0x0A], [CHR 0x0B], [CHR 0x0C], [CHR 0x0D], [CHR 0x20],
      [CHR 0xC2, CHR 0x85], [CHR 0xC2, CHR 0xA0],
      [CHR 0xE1, CHR 0x9A, CHR 0x80],
      [CHR 0xE2, CHR 0x80, CHR 0x80], [CHR 0xE2, CHR 0x80, CHR 0x81],
      [CHR 0xE2, CHR 0x80, CHR 0x82], [CHR 0xE2, CHR 0x80, CHR 0x83],
      [CHR 0xE2, CHR 0x80, CHR 0x84], [CHR 0xE2, CHR 0x80, CHR 0x85],
      [CHR 0xE2, CHR 0x80, CHR 0x86], [CHR 0xE2, CHR 0x80, CHR 0x87],
      [CHR 0xE2, CHR 0x80, CHR 0x88], [CHR 0xE2, CHR 0x80, CHR 0x89],
      [CHR 0xE2, CHR 0x80, CHR 0x8A],
      [CHR 0xE2, CHR 0x80, CHR 0xA8], [CHR 0xE2, CHR 0x80, CHR 0xA9],
      [CHR 0xE2, CHR 0x80, CHR 0xAF], [CHR 0xE2, CHR 0x81, CHR 0x9F],
      [CHR 0xE3, CHR 0x80, CHR 0x80]]"

text \<open>The length of the white-space code point the string starts (ends) with, if any.\<close>

definition leadingSpace :: "string \<Rightarrow> nat option" where
  "leadingSpace s = map_option length (find (\<lambda>w. HasPrefix s w) spaceSeqs)"

definition trailingSpace :: "string \<Rightarrow> nat option" where
  "trailingSpace s = map_option length (find (\<lambda>w. HasSuffix s w) spaceSeqs)"

function TrimLeftSpace :: "string \<Rightarrow> string" where
  "TrimLeftSpace s =
     (case leadingSpace s of
        None \<Rightarrow> s
      | Some n \<Rightarrow> if n = 0 \<or> length s < n then s else TrimLeftSpace (drop n s))"
  by pat_completeness auto
termination
  by (relation "measure length") auto

function TrimRightSpace :: "string \<Rightarrow> string" where
  "TrimRightSpace s =
     (case trailingSpace s of
        None \<Rightarrow> s
      | Some n \<Rightarrow> if n = 0 \<or> length s < n then s else TrimRightSpace (take (length s - n) s))"
  by pat_completeness auto
termination
  by (relation "measure length") auto

definition TrimSpace :: "string \<Rightarrow> string" where
  "TrimSpace s = TrimRightSpace (TrimLeftSpace s)"

text \<open>\<open>strings.Trim(s, cutset)\<close> for a cutset of one byte, as the code calls it.\<close>

definition Trim :: "string \<Rightarrow> char \<Rightarrow> string" where
  "Trim s c = rev (dropWhile (\<lambda>x. x = c) (rev (dropWhile (\<lambda>x. x = c) s)))"

text \<open>
  \<open>strings.Split(s, sep)\<close> for a separator of one byte: the pieces between the
  separators, never an empty slice. \<open>cur\<close> holds the piece being read, reversed.
\<close>

fun SplitFrom :: "string \<Rightarrow> char \<Rightarrow> string \<Rightarrow> string list" where
  "SplitFrom [] sep cur = [rev cur]"
| "SplitFrom (c # cs) sep cur =
     (if c = sep then rev cur # SplitFrom cs sep [] else SplitFrom cs sep (c # cur))"

definition Split :: "string \<Rightarrow> char \<Rightarrow> string list" where
  "Split s sep = SplitFrom s sep []"

text \<open>
  \<open>strings.SplitN(s, sep, 2)\<close> for a separator of one byte: the whole string when it has
  no separator, otherwise the text before the first separator and the text after it.
\<close>

definition SplitN2 :: "string \<Rightarrow> char \<Rightarrow> string list" where
  "SplitN2 s sep =
     (case dropWhile (\<lambda>c. c \<noteq> sep) s of
        [] \<Rightarrow> [s]
      | _ # rest \<Rightarrow> [takeWhile (\<lambda>c. c \<noteq> sep) s, rest])"

text \<open>\<open>strings.Join\<close>.\<close>

fun Join :: "string list \<Rightarrow> string \<Rightarrow> string" where
  "Join [] sep = []"
| "Join [x] sep = x"
| "Join (x # y # ys) sep = x @ sep @ Join (y # ys) sep"

section \<open>The syntax tree, as far as the editor reads it\<close>

text \<open>
  Positions: every \<open>token.Pos\<close> the code uses goes through
  \<open>fset.Position(p).Offset\<close>, so a position is modelled by that byte offset. The two
  positions that may be \<open>token.NoPos\<close> (\<open>Lparen\<close>, \<open>Rparen\<close>) are options, and
  \<open>offset\<close> gives the offset 0 that \<open>fset.Position\<close> reports for \<open>NoPos\<close>.
\<close>

fun offset :: "nat option \<Rightarrow> nat" where
  "offset None = 0"
| "offset (Some n) = n"

text \<open>
  The type expressions \<open>typeString\<close> tells apart. \<open>ArrayType\<close> carries its element type
  only (the code never reads \<open>Len\<close>); every other kind of expression is \<open>OtherExpr\<close>.
\<close>

datatype expr =
    Ident string
  | SelectorExpr expr string
  | StarExpr expr
  | ArrayType expr
  | MapType expr expr
  | OtherExpr

text \<open>
  A field of a struct: its names (none for an embedded field), its type, and the offsets
  of \<open>field.Type.Pos()\<close> and \<open>field.Type.End()\<close>.
\<close>

record field =
  Names :: "string list"
  Type :: expr
  TypePos :: nat
  TypeEnd :: nat

text \<open>The type of a \<open>TypeSpec\<close>: a struct type with its field list, or anything else.\<close>

datatype typeExpr =
    StructType "field list"
  | NotStruct expr

text \<open>
  An \<open>ImportSpec\<close> has an optional name and the path literal as written (\<open>Path.Value\<close>,
  quotes included).
\<close>

datatype spec =
    ImportSpec "string option" string
  | TypeSpec string typeExpr
  | ValueSpec

text \<open>The tokens of a \<open>GenDecl\<close> (\<open>token.IMPORT\<close>, ...).\<close>

datatype token = T_IMPORT | T_CONST | T_TYPE | T_VAR

record genDecl =
  Tok :: token
  DeclPos :: nat
  DeclEnd :: nat
  Lparen :: "nat option"
  Rparen :: "nat option"
  Specs :: "spec list"

datatype decl =
    GenDecl genDecl
  | FuncDecl nat
  | BadDecl

text \<open>
  \<open>ast.File\<close>: the declarations, the import specs of the file (\<open>file.Imports\<close>, the name
  and the path literal of each) and the offset of \<open>FileEnd\<close>.
\<close>

record astFile =
  Decls :: "decl list"
  Imports :: "(string option \<times> string) list"
  FileEnd :: nat

text \<open>
  The \<open>importManager\<close> and the \<open>Editor\<close>. The editor's fields \<open>file\<close> and \<open>imports\<close>
  are \<open>efile\<close> and \<open>eimports\<close> here, the manager's \<open>file\<close> is \<open>imFile\<close>; the file set is
  not needed, positions being offsets already.
\<close>

record importManager =
  imFile :: astFile
  existing :: "string \<rightharpoonup> string"

record editor =
  efile :: astFile
  src :: string
  eimports :: importManager

text \<open>
  A slice expression out of range panics. Go's \<open>error\<close> values are the messages.
\<close>

datatype panic = SliceBoundsOutOfRange

datatype error = Error string

section \<open>Splicing\<close>

text \<open>
  \<open>append(src[:start], append([]byte(text), src[end:]...)...)\<close>. The inner \<open>append\<close>
  builds \<open>text\<close> followed by \<open>src[end:]\<close> in a fresh array, and panics when
  \<open>end > len(src)\<close>; the outer one puts it after the first \<open>start\<close> bytes. Every node of
  the tree has \<open>Pos \<le> End\<close>; the model panics for \<open>start > end\<close> as well, where the
  Go result would depend on the capacity of the slice.
\<close>

definition splice :: "string \<Rightarrow> nat \<Rightarrow> nat \<Rightarrow> string \<Rightarrow> panic + string" where
  "splice s start end text =
     (if start \<le> end \<and> end \<le> length s
      then Inr (take start s @ text @ drop end s)
      else Inl SliceBoundsOutOfRange)"

section \<open>The editor\<close>

fun typeString :: "expr \<Rightarrow> string" where
  "typeString (Ident name) = name"
| "typeString (SelectorExpr x sel) = typeString x @ ''.'' @ sel"
| "typeString (StarExpr x) = ''*'' @ typeString x"
| "typeString (ArrayType elt) = ''[]'' @ typeString elt"
| "typeString (MapType key val) = ''map['' @ typeString key @ '']'' @ typeString val"
| "typeString OtherExpr = ''''"

text \<open>\<open>replaceType\<close>, on the buffer: the bytes of the type expression become \<open>newType\<close>.\<close>

definition replaceType :: "string \<Rightarrow> field \<Rightarrow> string \<Rightarrow> panic + string" where
  "replaceType s fld newType = splice s (TypePos fld) (TypeEnd fld) newType"

text \<open>
  The inner loop of \<open>editFields\<close> over the names of one field. The state is the buffer and
  the \<open>modified\<close> flag.
\<close>

fun editNames ::
  "(string \<rightharpoonup> string) \<Rightarrow> field \<Rightarrow> string list \<Rightarrow> string \<times> bool \<Rightarrow> panic + (string \<times> bool)"
where
  "editNames fieldEdits fld [] st = Inr st"
| "editNames fieldEdits fld (name # names) (s, modified) =
     (case fieldEdits name of
        None \<Rightarrow> editNames fieldEdits fld names (s, modified)
      | Some newType \<Rightarrow>
          if typeString (Type fld) = newType
          then editNames fieldEdits fld names (s, modified)
          else (case replaceType s fld newType of
                  Inl p \<Rightarrow> Inl p
                | Inr s' \<Rightarrow> editNames fieldEdits fld names (s', True)))"

text \<open>The outer loop of \<open>editFields\<close> over the fields of the struct.\<close>

fun editFieldList ::
  "(string \<rightharpoonup> string) \<Rightarrow> field list \<Rightarrow> string \<times> bool \<Rightarrow> panic + (string \<times> bool)"
where
  "editFieldList fieldEdits [] st = Inr st"
| "editFieldList fieldEdits (fld # flds) st =
     (if length (Names fld) = 0
      then editFieldList fieldEdits flds st
      else (case editNames fieldEdits fld (Names fld) st of
              Inl p \<Rightarrow> Inl p
            | Inr st' \<Rightarrow> editFieldList fieldEdits flds st'))"

text \<open>\<open>editFields\<close>: the buffer after the loop and whether a type was replaced.\<close>

definition editFields ::
  "string \<Rightarrow> field list \<Rightarrow> (string \<rightharpoonup> string) \<Rightarrow> panic + (string \<times> bool)"
where
  "editFields s flds fieldEdits = editFieldList fieldEdits flds (s, False)"

text \<open>The loop of \<open>EditStruct\<close> over the specs of one \<open>type\<close> declaration.\<close>

fun editSpecs ::
  "string \<Rightarrow> (string \<rightharpoonup> string) \<Rightarrow> spec list \<Rightarrow> string \<times> bool \<Rightarrow> panic + (string \<times> bool)"
where
  "editSpecs structName fieldEdits [] st = Inr st"
| "editSpecs structName fieldEdits (TypeSpec name (StructType flds) # specs) (s, modified) =
     (if name \<noteq> structName
      then editSpecs structName fieldEdits specs (s, modified)
      else (case editFields s flds fieldEdits of
              Inl p \<Rightarrow> Inl p
            | Inr (s', changed) \<Rightarrow>
                editSpecs structName fieldEdits specs
                  (s', if changed then True else modified)))"
| "editSpecs structName fieldEdits (sp # specs) st = editSpecs structName fieldEdits specs st"

text \<open>The loop of \<open>EditStruct\<close> over the declarations of the file.\<close>

fun editDecls ::
  "string \<Rightarrow> (string \<rightharpoonup> string) \<Rightarrow> decl list \<Rightarrow> string \<times> bool \<Rightarrow> panic + (string \<times> bool)"
where
  "editDecls structName fieldEdits [] st = Inr st"
| "editDecls structName fieldEdits (GenDecl gd # decls) st =
     (if Tok gd \<noteq> T_TYPE
      then editDecls structName fieldEdits decls st
      else (case editSpecs structName fieldEdits (Specs gd) st of
              Inl p \<Rightarrow> Inl p
            | Inr st' \<Rightarrow> editDecls structName fieldEdits decls st'))"
| "editDecls structName fieldEdits (d # decls) st = editDecls structName fieldEdits decls st"

text \<open>
  \<open>EditStruct\<close>: the editor with its buffer after the edits, \<open>modified\<close>, and the error,
  which is always \<open>nil\<close>.
\<close>

definition EditStruct ::
  "editor \<Rightarrow> string \<Rightarrow> (string \<rightharpoonup> string) \<Rightarrow> panic + (editor \<times> bool \<times> error option)"
where
  "EditStruct e structName fieldEdits =
     (case editDecls structName fieldEdits (Decls (efile e)) (src e, False) of
        Inl p \<Rightarrow> Inl p
      | Inr (s', modified) \<Rightarrow> Inr (e\<lparr>src := s'\<rparr>, modified, None))"

definition Source :: "editor \<Rightarrow> string" where
  "Source e = src e"

text \<open>\<open>StructNames\<close>: the names of all type specs of the \<open>type\<close> declarations.\<close>

fun specNames :: "spec list \<Rightarrow> string list" where
  "specNames [] = []"
| "specNames (TypeSpec name ty # specs) = name # specNames specs"
| "specNames (sp # specs) = specNames specs"

fun declNames :: "decl list \<Rightarrow> string list" where
  "declNames [] = []"
| "declNames (GenDecl gd # decls) =
     (if Tok gd \<noteq> T_TYPE then declNames decls else specNames (Specs gd) @ declNames decls)"
| "declNames (d # decls) = declNames decls"

definition StructNames :: "editor \<Rightarrow> string list" where
  "StructNames e = declNames (Decls (efile e))"

section \<open>The import manager\<close>

text \<open>The fields \<open>alias\<close> and \<open>path\<close> of an \<open>importSpec\<close>.\<close>

record importSpec =
  specAlias :: string
  specPath :: string

text \<open>
  \<open>newImportManager\<close>: the aliases bound by the import specs of the file, a later spec
  overwriting an earlier one with the same alias.
\<close>

fun existingFrom ::
  "(string option \<times> string) list \<Rightarrow> (string \<rightharpoonup> string) \<Rightarrow> (string \<rightharpoonup> string)"
where
  "existingFrom [] ex = ex"
| "existingFrom ((impName, pathValue) # imps) ex =
     (let p = Trim pathValue dq;
          name = (case impName of
                    Some n \<Rightarrow> n
                  | None \<Rightarrow> last (Split p (CHR ''/'')))
      in existingFrom imps (ex(name \<mapsto> p)))"

definition newImportManager :: "astFile \<Rightarrow> importManager" where
  "newImportManager f = \<lparr>imFile = f, existing = existingFrom (Imports f) Map.empty\<rparr>"

text \<open>What \<open>ParseFile\<close> builds from the bytes read and the tree parsed from them.\<close>

definition newEditor :: "astFile \<Rightarrow> string \<Rightarrow> editor" where
  "newEditor f s = \<lparr>efile = f, src = s, eimports = newImportManager f\<rparr>"

text \<open>
  The first loop of \<open>add\<close>. \<open>required\<close> is a Go map: the list holds its entries in the order
  in which the \<open>range\<close> loop visits them, which Go leaves open.
\<close>

fun addLoop ::
  "(string \<times> string) list \<Rightarrow> (string \<rightharpoonup> string) \<Rightarrow> importSpec list
     \<Rightarrow> (string \<rightharpoonup> string) \<times> importSpec list"
where
  "addLoop [] ex toAdd = (ex, toAdd)"
| "addLoop ((a, pkgPath) # required) ex toAdd =
     (if ex a = None
      then addLoop required (ex(a \<mapsto> pkgPath)) (toAdd @ [\<lparr>specAlias = a, specPath = pkgPath\<rparr>])
      else addLoop required ex toAdd)"

fun findInsertPositionFrom :: "decl list \<Rightarrow> nat \<Rightarrow> nat" where
  "findInsertPositionFrom [] fileEnd = fileEnd"
| "findInsertPositionFrom (GenDecl gd # decls) fileEnd =
     (if Tok gd = T_IMPORT then findInsertPositionFrom decls fileEnd else DeclPos gd)"
| "findInsertPositionFrom (FuncDecl p # decls) fileEnd = p"
| "findInsertPositionFrom (BadDecl # decls) fileEnd = findInsertPositionFrom decls fileEnd"

definition findInsertPosition :: "importManager \<Rightarrow> nat" where
  "findInsertPosition im = findInsertPositionFrom (Decls (imFile im)) (FileEnd (imFile im))"

fun findImportDeclFrom :: "decl list \<Rightarrow> genDecl option" where
  "findImportDeclFrom [] = None"
| "findImportDeclFrom (GenDecl gd # decls) =
     (if Tok gd \<noteq> T_IMPORT then findImportDeclFrom decls else Some gd)"
| "findImportDeclFrom (d # decls) = findImportDeclFrom decls"

definition findImportDecl :: "importManager \<Rightarrow> genDecl option" where
  "findImportDecl im = findImportDeclFrom (Decls (imFile im))"

fun specString :: "spec \<Rightarrow> string" where
  "specString (ImportSpec (Some name) pathValue) = name @ '' '' @ pathValue"
| "specString (ImportSpec None pathValue) = pathValue"
| "specString sp = []"

text \<open>The line of a new import: a tab and the path in double quotes.\<close>

definition newLine :: "importSpec \<Rightarrow> string" where
  "newLine sp = [tab, dq] @ specPath sp @ [dq]"

text \<open>The line of an import spec that is kept: a tab and \<open>specString\<close>.\<close>

definition oldLine :: "spec \<Rightarrow> string" where
  "oldLine sp = [tab] @ specString sp"

definition insertNewImportBlock ::
  "importManager \<Rightarrow> importSpec list \<Rightarrow> string \<Rightarrow> panic + (string \<times> error option)"
where
  "insertNewImportBlock im toAdd s =
     (let start = findInsertPosition im;
          lines = [''import (''] @ map newLine toAdd @ ['')'' @ [nl, nl]];
          newBlock = Join lines [nl]
      in case splice s start start newBlock of
           Inl p \<Rightarrow> Inl p
         | Inr s' \<Rightarrow> Inr (s', None))"

definition addToBlock ::
  "genDecl \<Rightarrow> importSpec list \<Rightarrow> string \<Rightarrow> panic + (string \<times> error option)"
where
  "addToBlock importDecl toAdd s =
     (let start = offset (Lparen importDecl);
          end = offset (Rparen importDecl) + 1;
          existingImports = map oldLine (Specs importDecl) @ map newLine toAdd;
          newBlock = ''('' @ [nl] @ Join existingImports [nl] @ [nl] @ '')''
      in case splice s start end newBlock of
           Inl p \<Rightarrow> Inl p
         | Inr s' \<Rightarrow> Inr (s', None))"

fun convertToBlockFrom ::
  "decl list \<Rightarrow> importSpec list \<Rightarrow> string \<Rightarrow> panic + (string \<times> error option)"
where
  "convertToBlockFrom [] toAdd s = Inr (s, Some (Error ''no import declaration found''))"
| "convertToBlockFrom (GenDecl gd # decls) toAdd s =
     (if Tok gd \<noteq> T_IMPORT
      then convertToBlockFrom decls toAdd s
      else (let start = DeclPos gd;
                end = DeclEnd gd;
                importLines = map oldLine (Specs gd) @ map newLine toAdd;
                newBlock = ''import ('' @ [nl] @ Join importLines [nl] @ [nl] @ '')''
            in case splice s start end newBlock of
                 Inl p \<Rightarrow> Inl p
               | Inr s' \<Rightarrow> Inr (s', None)))"
| "convertToBlockFrom (d # decls) toAdd s = convertToBlockFrom decls toAdd s"

definition convertToBlock ::
  "importManager \<Rightarrow> importSpec list \<Rightarrow> string \<Rightarrow> panic + (string \<times> error option)"
where
  "convertToBlock im toAdd s = convertToBlockFrom (Decls (imFile im)) toAdd s"

text \<open>
  \<open>add\<close>: the manager with the new aliases recorded, the buffer, and the error returned.
\<close>

definition add ::
  "importManager \<Rightarrow> (string \<times> string) list \<Rightarrow> string
     \<Rightarrow> panic + (importManager \<times> string \<times> error option)"
where
  "add im required s =
     (case addLoop required (existing im) [] of
        (ex, toAdd) \<Rightarrow>
          (let im' = im\<lparr>existing := ex\<rparr>
           in if length toAdd = 0 then Inr (im', s, None)
              else case (if length (Imports (imFile im')) = 0
                         then insertNewImportBlock im' toAdd s
                         else (case findImportDecl im' of
                                 Some importDecl \<Rightarrow>
                                   if Lparen importDecl \<noteq> None
                                   then addToBlock importDecl toAdd s
                                   else convertToBlock im' toAdd s
                               | None \<Rightarrow> convertToBlock im' toAdd s)) of
                     Inl p \<Rightarrow> Inl p
                   | Inr (s', err) \<Rightarrow> Inr (im', s', err)))"

definition AddImports ::
  "editor \<Rightarrow> (string \<times> string) list \<Rightarrow> panic + (editor \<times> error option)"
where
  "AddImports e required =
     (case add (eimports e) required (src e) of
        Inl p \<Rightarrow> Inl p
      | Inr (im', s', err) \<Rightarrow> Inr (e\<lparr>src := s', eimports := im'\<rparr>, err))"

section \<open>Import inference from type strings\<close>

definition ParseTypeString :: "string \<Rightarrow> string \<times> string \<times> bool" where
  "ParseTypeString typeStr0 =
     (let typeStr1 = TrimSpace typeStr0;
          isPointer = HasPrefix typeStr1 ''*'';
          typeStr = (if isPointer then TrimPrefix typeStr1 ''*'' else typeStr1)
      in case SplitN2 typeStr (CHR ''.'') of
           [p0, p1] \<Rightarrow> (p0, p1, isPointer)
         | _ \<Rightarrow> ([], typeStr, isPointer))"

text \<open>
  \<open>RequiredImports\<close>. \<open>fieldEdits\<close> is a Go map that the loop ranges over: the list holds
  its entries (field name, type string) in the order of the visit.
\<close>

fun requiredImportsLoop ::
  "(string \<times> string) list \<Rightarrow> (string \<rightharpoonup> string) \<Rightarrow> (string \<rightharpoonup> string)"
where
  "requiredImportsLoop [] imps = imps"
| "requiredImportsLoop ((fieldName, typeStr) # fieldEdits) imps =
     (case ParseTypeString typeStr of
        (pkgPath, typeName, isPointer) \<Rightarrow>
          if pkgPath \<noteq> []
          then requiredImportsLoop fieldEdits (imps(pkgPath \<mapsto> pkgPath))
          else requiredImportsLoop fieldEdits imps)"

definition RequiredImports :: "(string \<times> string) list \<Rightarrow> (string \<rightharpoonup> string)" where
  "RequiredImports fieldEdits = requiredImportsLoop fieldEdits Map.empty"

text \<open>\<open>parseQualifiedType\<close> of the configuration package: \<open>(pkg, alias, ok)\<close>.\<close>

definition parseQualifiedType :: "string \<Rightarrow> string \<times> string \<times> bool" where
  "parseQualifiedType typeStr0 =
     (let typeStr = TrimPrefix typeStr0 ''*''
      in case SplitN2 typeStr (CHR ''.'') of
           [p0, p1] \<Rightarrow> (p0, p0, True)
         | _ \<Rightarrow> ([], [], False))"

text \<open>
  \<open>TypeConfig.Imports\<close>, over the entries of \<open>tc.Fields\<close> in the order of the visit.
\<close>

fun configImportsLoop ::
  "(string \<times> string) list \<Rightarrow> (string \<rightharpoonup> string) \<Rightarrow> (string \<rightharpoonup> string)"
where
  "configImportsLoop [] imps = imps"
| "configImportsLoop ((fieldName, fieldType) # flds) imps =
     (case parseQualifiedType fieldType of
        (pkg, als, ok) \<Rightarrow>
          if ok
          then configImportsLoop flds (imps(als \<mapsto> pkg))
          else configImportsLoop flds imps)"

definition configImports :: "(string \<times> string) list \<Rightarrow> (string \<rightharpoonup> string)" where
  "configImports flds = configImportsLoop flds Map.empty"

section \<open>What a call of \<open>EditStruct\<close> amounts to\<close>

text \<open>
  The fields that \<open>EditStruct\<close> visits for a struct name: those of every type spec of that
  name whose type is a struct, in a \<open>type\<close> declaration, in the order of the file.
\<close>

fun specFields :: "string \<Rightarrow> spec \<Rightarrow> field list" where
  "specFields structName (TypeSpec name (StructType flds)) =
     (if name = structName then flds else [])"
| "specFields structName sp = []"

fun declFields :: "string \<Rightarrow> decl \<Rightarrow> field list" where
  "declFields structName (GenDecl gd) =
     (if Tok gd = T_TYPE then concat (map (specFields structName) (Specs gd)) else [])"
| "declFields structName d = []"

definition matchedFields :: "astFile \<Rightarrow> string \<Rightarrow> field list" where
  "matchedFields f structName = concat (map (declFields structName) (Decls f))"

text \<open>
  The replacements a call asks for, as (start, end, text), in the order in which the loops
  reach them. They are read off the tree and the edits alone.
\<close>

fun nameSplices ::
  "(string \<rightharpoonup> string) \<Rightarrow> field \<Rightarrow> string list \<Rightarrow> (nat \<times> nat \<times> string) list"
where
  "nameSplices fieldEdits fld [] = []"
| "nameSplices fieldEdits fld (name # names) =
     (case fieldEdits name of
        None \<Rightarrow> nameSplices fieldEdits fld names
      | Some newType \<Rightarrow>
          if typeString (Type fld) = newType
          then nameSplices fieldEdits fld names
          else (TypePos fld, TypeEnd fld, newType) # nameSplices fieldEdits fld names)"

definition fieldSplices :: "(string \<rightharpoonup> string) \<Rightarrow> field list \<Rightarrow> (nat \<times> nat \<times> string) list" where
  "fieldSplices fieldEdits flds =
     concat (map (\<lambda>fld. nameSplices fieldEdits fld (Names fld)) flds)"

definition plannedSplices ::
  "astFile \<Rightarrow> string \<Rightarrow> (string \<rightharpoonup> string) \<Rightarrow> (nat \<times> nat \<times> string) list"
where
  "plannedSplices f structName fieldEdits =
     fieldSplices fieldEdits (matchedFields f structName)"

text \<open>Replacements applied one after the other, each to the buffer the one before left.\<close>

fun applySplices :: "string \<Rightarrow> (nat \<times> nat \<times> string) list \<Rightarrow> panic + string" where
  "applySplices s [] = Inr s"
| "applySplices s ((start, end, text) # rest) =
     (case splice s start end text of
        Inl p \<Rightarrow> Inl p
      | Inr s' \<Rightarrow> applySplices s' rest)"

definition withFlag :: "panic + string \<Rightarrow> bool \<Rightarrow> panic + (string \<times> bool)" where
  "withFlag r m = (case r of Inl p \<Rightarrow> Inl p | Inr s \<Rightarrow> Inr (s, m))"

text \<open>
  The request leaves a field alone: each of its names is either not in the edits or mapped
  to the rendering of the field's type.
\<close>

definition leftAlone :: "(string \<rightharpoonup> string) \<Rightarrow> field \<Rightarrow> bool" where
  "leftAlone fieldEdits fld =
     list_all (\<lambda>name. case fieldEdits name of
                         None \<Rightarrow> True
                       | Some newType \<Rightarrow> typeString (Type fld) = newType) (Names fld)"

text \<open>A type spec of the given name whose type is a struct.\<close>

fun isStructSpec :: "string \<Rightarrow> spec \<Rightarrow> bool" where
  "isStructSpec structName (TypeSpec name (StructType flds)) = (name = structName)"
| "isStructSpec structName sp = False"

text \<open>Some \<open>type\<close> declaration of the file declares a struct of the given name.\<close>

fun declaresStructIn :: "string \<Rightarrow> decl \<Rightarrow> bool" where
  "declaresStructIn structName (GenDecl gd) =
     (Tok gd = T_TYPE \<and> list_ex (isStructSpec structName) (Specs gd))"
| "declaresStructIn structName d = False"

definition declaresStruct :: "astFile \<Rightarrow> string \<Rightarrow> bool" where
  "declaresStruct f structName = list_ex (declaresStructIn structName) (Decls f)"

section \<open>Import blocks and qualifiers, in the words of the specification\<close>

text \<open>A path in double quotes, as a new import entry is written.\<close>

definition quoted :: "string \<Rightarrow> string" where
  "quoted p = dq # p @ [dq]"

text \<open>
  The block form of an import list: an opening parenthesis, one line per entry (a tab and
  the entry), a closing parenthesis.
\<close>

definition importBlock :: "string list \<Rightarrow> string" where
  "importBlock entries = ''('' @ [nl] @ concat (map (\<lambda>e. tab # e @ [nl]) entries) @ '')''"

text \<open>
  An entry that stays in the block, as the import spec had it: its explicit alias, when it
  has one, a space, and the path literal as written.
\<close>

fun keptEntry :: "string option \<times> string \<Rightarrow> string" where
  "keptEntry (None, pathValue) = pathValue"
| "keptEntry (Some name, pathValue) = name @ '' '' @ pathValue"

text \<open>The required imports that are new: those whose alias is not bound yet.\<close>

definition delta :: "(string \<rightharpoonup> string) \<Rightarrow> (string \<times> string) list \<Rightarrow> (string \<times> string) list" where
  "delta ex required = filter (\<lambda>(a, p). ex a = None) required"

text \<open>Strip a single leading pointer marker.\<close>

fun stripStar :: "string \<Rightarrow> string" where
  "stripStar [] = []"
| "stripStar (c # cs) = (if c = CHR ''*'' then cs else c # cs)"

text \<open>
  Split on the first separator into (qualifier, rest); \<open>None\<close> when there is no
  separator.
\<close>

fun splitQualifier :: "string \<Rightarrow> (string \<times> string) option" where
  "splitQualifier [] = None"
| "splitQualifier (c # cs) =
     (if c = CHR ''.'' then Some ([], cs)
      else (case splitQualifier cs of
              None \<Rightarrow> None
            | Some (q, r) \<Rightarrow> Some (c # q, r)))"

text \<open>
  The inference as the specification words it: strip the marker, split; a qualifier found
  is both the alias and the path, otherwise no import is required.
\<close>

definition inferImport :: "string \<Rightarrow> (string \<times> string) option" where
  "inferImport typeStr =
     (case splitQualifier (stripStar typeStr) of
        None \<Rightarrow> None
      | Some (q, r) \<Rightarrow> Some (q, q))"

section \<open>Results of the calls\<close>

text \<open>The buffer and the flag a call of \<open>EditStruct\<close> returns, and a call after a call.\<close>

definition outcome :: "panic + (editor \<times> bool \<times> error option) \<Rightarrow> panic + (string \<times> bool)" where
  "outcome r = (case r of Inl p \<Rightarrow> Inl p | Inr (e, m, err) \<Rightarrow> Inr (src e, m))"

definition thenEditStruct ::
  "panic + (editor \<times> bool \<times> error option) \<Rightarrow> string \<Rightarrow> (string \<rightharpoonup> string)
     \<Rightarrow> panic + (editor \<times> bool \<times> error option)"
where
  "thenEditStruct r structName fieldEdits =
     (case r of Inl p \<Rightarrow> Inl p | Inr (e, m, err) \<Rightarrow> EditStruct e structName fieldEdits)"

text \<open>The editor with a new buffer and one more alias recorded by its import manager.\<close>

definition withImport :: "editor \<Rightarrow> string \<Rightarrow> string \<Rightarrow> string \<Rightarrow> editor" where
  "withImport e s' a p =
     e\<lparr>src := s', eimports := (eimports e)\<lparr>existing := (existing (eimports e))(a \<mapsto> p)\<rparr>\<rparr>"

text \<open>The buffer and the error a call of \<open>AddImports\<close> returns.\<close>

definition importOutcome ::
  "panic + (editor \<times> error option) \<Rightarrow> panic + (string \<times> error option)"
where
  "importOutcome r = (case r of Inl p \<Rightarrow> Inl p | Inr (e, err) \<Rightarrow> Inr (src e, err))"

section \<open>Sample files\<close>

text \<open>
  \<open>package test\<close>, a blank line, and \<open>type Example struct\<close> with the fields
  \<open>ID    int64\<close> and \<open>Total *int64\<close>, one per line, indented by a tab; 65 bytes.
\<close>

definition exampleSrc :: string where
  "exampleSrc =
     ''package test'' @ [nl, nl] @ ''type Example struct {'' @ [nl] @
     [tab] @ ''ID    int64'' @ [nl] @
     [tab] @ ''Total *int64'' @ [nl] @
     ''}'' @ [nl]"

definition idField :: field where
  "idField = \<lparr>Names = [''ID''], Type = Ident ''int64'', TypePos = 43, TypeEnd = 48\<rparr>"

definition totalField :: field where
  "totalField =
     \<lparr>Names = [''Total''], Type = StarExpr (Ident ''int64''), TypePos = 56, TypeEnd = 62\<rparr>"

definition exampleFile :: astFile where
  "exampleFile =
     \<lparr>Decls = [GenDecl \<lparr>Tok = T_TYPE, DeclPos = 14, DeclEnd = 64, Lparen = None, Rparen = None,
                Specs = [TypeSpec ''Example'' (StructType [idField, totalField])]\<rparr>],
      Imports = [], FileEnd = 65\<rparr>"

text \<open>
  \<open>package p\<close> and \<open>type T struct\<close> with the field \<open>A int\<close> followed by the tag
  \<open>`json:"a"`\<close> and the field \<open>B int\<close> followed by the comment \<open>// count\<close>; 63 bytes.
\<close>

definition tagSrc :: string where
  "tagSrc =
     ''package p'' @ [nl, nl] @ ''type T struct {'' @ [nl] @
     [tab] @ ''A int '' @ [bq] @ ''json:'' @ [dq] @ ''a'' @ [dq, bq] @ [nl] @
     [tab] @ ''B int // count'' @ [nl] @
     ''}'' @ [nl]"

definition tagFile :: astFile where
  "tagFile =
     \<lparr>Decls = [GenDecl \<lparr>Tok = T_TYPE, DeclPos = 11, DeclEnd = 62, Lparen = None, Rparen = None,
                Specs = [TypeSpec ''T'' (StructType
                  [\<lparr>Names = [''A''], Type = Ident ''int'', TypePos = 30, TypeEnd = 33\<rparr>,
                   \<lparr>Names = [''B''], Type = Ident ''int'', TypePos = 48, TypeEnd = 51\<rparr>])]\<rparr>],
      Imports = [], FileEnd = 63\<rparr>"

text \<open>
  \<open>package p\<close> and \<open>type T struct\<close> with the field \<open>A int\<close>, the embedded field \<open>Base\<close>
  and the field \<open>B int\<close>; 49 bytes.
\<close>

definition embedSrc :: string where
  "embedSrc =
     ''package p'' @ [nl, nl] @ ''type T struct {'' @ [nl] @
     [tab] @ ''A int'' @ [nl] @
     [tab] @ ''Base'' @ [nl] @
     [tab] @ ''B int'' @ [nl] @
     ''}'' @ [nl]"

definition embedFile :: astFile where
  "embedFile =
     \<lparr>Decls = [GenDecl \<lparr>Tok = T_TYPE, DeclPos = 11, DeclEnd = 48, Lparen = None, Rparen = None,
                Specs = [TypeSpec ''T'' (StructType
                  [\<lparr>Names = [''A''], Type = Ident ''int'', TypePos = 30, TypeEnd = 33\<rparr>,
                   \<lparr>Names = [], Type = Ident ''Base'', TypePos = 35, TypeEnd = 39\<rparr>,
                   \<lparr>Names = [''B''], Type = Ident ''int'', TypePos = 43, TypeEnd = 46\<rparr>])]\<rparr>],
      Imports = [], FileEnd = 49\<rparr>"

text \<open>\<open>package p\<close> and \<open>type T struct\<close> with the one field \<open>A float64\<close>; 40 bytes.\<close>

definition floatSrc :: string where
  "floatSrc =
     ''package p'' @ [nl, nl] @ ''type T struct {'' @ [nl] @
     [tab] @ ''A float64'' @ [nl] @
     ''}'' @ [nl]"

definition floatFile :: astFile where
  "floatFile =
     \<lparr>Decls = [GenDecl \<lparr>Tok = T_TYPE, DeclPos = 11, DeclEnd = 39, Lparen = None, Rparen = None,
                Specs = [TypeSpec ''T'' (StructType
                  [\<lparr>Names = [''A''], Type = Ident ''float64'', TypePos = 30, TypeEnd = 37\<rparr>])]\<rparr>],
      Imports = [], FileEnd = 40\<rparr>"

text \<open>
  \<open>package p\<close>, the single import \<open>import "fmt"\<close> and \<open>type T struct\<close> with the field
  \<open>A int\<close>; 50 bytes.
\<close>

definition singleSrc :: string where
  "singleSrc =
     ''package p'' @ [nl, nl] @ ''import '' @ quoted ''fmt'' @ [nl, nl] @
     ''type T struct {'' @ [nl] @ [tab] @ ''A int'' @ [nl] @ ''}'' @ [nl]"

definition singleFile :: astFile where
  "singleFile =
     \<lparr>Decls = [GenDecl \<lparr>Tok = T_IMPORT, DeclPos = 11, DeclEnd = 23, Lparen = None, Rparen = None,
                Specs = [ImportSpec None (quoted ''fmt'')]\<rparr>,
               GenDecl \<lparr>Tok = T_TYPE, DeclPos = 25, DeclEnd = 49, Lparen = None, Rparen = None,
                Specs = [TypeSpec ''T'' (StructType
                  [\<lparr>Names = [''A''], Type = Ident ''int'', TypePos = 44, TypeEnd = 47\<rparr>])]\<rparr>],
      Imports = [(None, quoted ''fmt'')], FileEnd = 50\<rparr>"

text \<open>
  \<open>package p\<close>, the import block \<open>import ( "fmt" )\<close> on three lines and \<open>type T struct\<close>
  with the field \<open>A int\<close>; 55 bytes.
\<close>

definition blockSrc :: string where
  "blockSrc =
     ''package p'' @ [nl, nl] @ ''import ('' @ [nl] @ [tab] @ quoted ''fmt'' @ [nl] @ '')'' @
     [nl, nl] @ ''type T struct {'' @ [nl] @ [tab] @ ''A int'' @ [nl] @ ''}'' @ [nl]"

definition blockFile :: astFile where
  "blockFile =
     \<lparr>Decls = [GenDecl \<lparr>Tok = T_IMPORT, DeclPos = 11, DeclEnd = 28, Lparen = Some 18,
                Rparen = Some 27, Specs = [ImportSpec None (quoted ''fmt'')]\<rparr>,
               GenDecl \<lparr>Tok = T_TYPE, DeclPos = 30, DeclEnd = 54, Lparen = None, Rparen = None,
                Specs = [TypeSpec ''T'' (StructType
                  [\<lparr>Names = [''A''], Type = Ident ''int'', TypePos = 49, TypeEnd = 52\<rparr>])]\<rparr>],
      Imports = [(None, quoted ''fmt'')], FileEnd = 55\<rparr>"



text \<open>\<open>package test\<close> and the declaration \<open>type ID int64\<close>; 28 bytes.\<close>

definition aliasSrc :: string where
  "aliasSrc = ''package test'' @ [nl, nl] @ ''type ID int64'' @ [nl]"

definition aliasFile :: astFile where
  "aliasFile =
     \<lparr>Decls = [GenDecl \<lparr>Tok = T_TYPE, DeclPos = 14, DeclEnd = 27, Lparen = None, Rparen = None,
                Specs = [TypeSpec ''ID'' (NotStruct (Ident ''int64''))]\<rparr>],
      Imports = [], FileEnd = 28\<rparr>"

text \<open>
  \<open>package test\<close>, the import block \<open>import ( mytime "time" )\<close> on three lines and
  \<open>type Example struct\<close> with the field \<open>ID int64\<close>; 75 bytes.
\<close>

definition aliasedSrc :: string where
  "aliasedSrc =
     ''package test'' @ [nl, nl] @ ''import ('' @ [nl] @
     [tab] @ ''mytime '' @ quoted ''time'' @ [nl] @ '')'' @ [nl, nl] @
     ''type Example struct {'' @ [nl] @ [tab] @ ''ID int64'' @ [nl] @ ''}'' @ [nl]"

definition aliasedFile :: astFile where
  "aliasedFile =
     \<lparr>Decls = [GenDecl \<lparr>Tok = T_IMPORT, DeclPos = 14, DeclEnd = 39, Lparen = Some 21,
                Rparen = Some 38, Specs = [ImportSpec (Some ''mytime'') (quoted ''time'')]\<rparr>,
               GenDecl \<lparr>Tok = T_TYPE, DeclPos = 41, DeclEnd = 74, Lparen = None, Rparen = None,
                Specs = [TypeSpec ''Example'' (StructType
                  [\<lparr>Names = [''ID''], Type = Ident ''int64'', TypePos = 67, TypeEnd = 72\<rparr>])]\<rparr>],
      Imports = [(Some ''mytime'', quoted ''time'')], FileEnd = 75\<rparr>"

text \<open>\<open>package p\<close> and \<open>type T struct\<close> with the one field \<open>C chan int\<close>; 41 bytes.\<close>

definition chanSrc :: string where
  "chanSrc =
     ''package p'' @ [nl, nl] @ ''type T struct {'' @ [nl] @
     [tab] @ ''C chan int'' @ [nl] @
     ''}'' @ [nl]"

definition chanFile :: astFile where
  "chanFile =
     \<lparr>Decls = [GenDecl \<lparr>Tok = T_TYPE, DeclPos = 11, DeclEnd = 40, Lparen = None, Rparen = None,
                Specs = [TypeSpec ''T'' (StructType
                  [\<lparr>Names = [''C''], Type = OtherExpr, TypePos = 30, TypeEnd = 38\<rparr>])]\<rparr>],
      Imports = [], FileEnd = 41\<rparr>"

text \<open>
  \<open>package p\<close>, the single import of \<open>time\<close> with its path written as a raw string
  literal, between backquotes, and \<open>type T struct\<close> with the field \<open>A int\<close>; 51 bytes.
\<close>

definition rawSrc :: string where
  "rawSrc =
     ''package p'' @ [nl, nl] @ ''import '' @ [bq] @ ''time'' @ [bq] @ [nl, nl] @
     ''type T struct {'' @ [nl] @ [tab] @ ''A int'' @ [nl] @ ''}'' @ [nl]"

definition rawFile :: astFile where
  "rawFile =
     \<lparr>Decls = [GenDecl \<lparr>Tok = T_IMPORT, DeclPos = 11, DeclEnd = 24, Lparen = None, Rparen = None,
                Specs = [ImportSpec None ([bq] @ ''time'' @ [bq])]\<rparr>,
               GenDecl \<lparr>Tok = T_TYPE, DeclPos = 26, DeclEnd = 50, Lparen = None, Rparen = None,
                Specs = [TypeSpec ''T'' (StructType
                  [\<lparr>Names = [''A''], Type = Ident ''int'', TypePos = 45, TypeEnd = 48\<rparr>])]\<rparr>],
      Imports = [(None, [bq] @ ''time'' @ [bq])], FileEnd = 51\<rparr>"

text \<open>
  \<open>package p\<close>, the single import \<open>import m "math"\<close> and \<open>type T struct\<close> with the field
  \<open>A int\<close>; 53 bytes.
\<close>

definition mathSrc :: string where
  "mathSrc =
     ''package p'' @ [nl, nl] @ ''import m '' @ quoted ''math'' @ [nl, nl] @
     ''type T struct {'' @ [nl] @ [tab] @ ''A int'' @ [nl] @ ''}'' @ [nl]"

definition mathFile :: astFile where
  "mathFile =
     \<lparr>Decls = [GenDecl \<lparr>Tok = T_IMPORT, DeclPos = 11, DeclEnd = 26, Lparen = None, Rparen = None,
                Specs = [ImportSpec (Some ''m'') (quoted ''math'')]\<rparr>,
               GenDecl \<lparr>Tok = T_TYPE, DeclPos = 28, DeclEnd = 52, Lparen = None, Rparen = None,
                Specs = [TypeSpec ''T'' (StructType
                  [\<lparr>Names = [''A''], Type = Ident ''int'', TypePos = 47, TypeEnd = 50\<rparr>])]\<rparr>],
      Imports = [(Some ''m'', quoted ''math'')], FileEnd = 53\<rparr>"

text \<open>
  \<open>package p\<close>, the import block with the two entries \<open>"net/http"\<close> and \<open>mytime "time"\<close>,
  one per line, and \<open>type T struct\<close> with the field \<open>A int\<close>; 75 bytes.
\<close>

definition twoSrc :: string where
  "twoSrc =
     ''package p'' @ [nl, nl] @ ''import ('' @ [nl] @
     [tab] @ quoted ''net/http'' @ [nl] @
     [tab] @ ''mytime '' @ quoted ''time'' @ [nl] @ '')'' @ [nl, nl] @
     ''type T struct {'' @ [nl] @ [tab] @ ''A int'' @ [nl] @ ''}'' @ [nl]"

definition twoFile :: astFile where
  "twoFile =
     \<lparr>Decls = [GenDecl \<lparr>Tok = T_IMPORT, DeclPos = 11, DeclEnd = 48, Lparen = Some 18,
                Rparen = Some 47,
                Specs = [ImportSpec None (quoted ''net/http''),
                         ImportSpec (Some ''mytime'') (quoted ''time'')]\<rparr>,
               GenDecl \<lparr>Tok = T_TYPE, DeclPos = 50, DeclEnd = 74, Lparen = None, Rparen = None,
                Specs = [TypeSpec ''T'' (StructType
                  [\<lparr>Names = [''A''], Type = Ident ''int'', TypePos = 69, TypeEnd = 72\<rparr>])]\<rparr>],
      Imports = [(None, quoted ''net/http''), (Some ''mytime'', quoted ''time'')],
      FileEnd = 75\<rparr>"

section \<open>Properties of the editor\<close>

lemma withFlag_Inr [simp]: "withFlag (Inr s) m = Inr (s, m)"
  by (simp add: withFlag_def)

lemma withFlag_Inl [simp]: "withFlag (Inl p) m = Inl p"
  by (simp add: withFlag_def)

lemma applySplices_append:
  "applySplices s (xs @ ys) =
     (case applySplices s xs of Inl p \<Rightarrow> Inl p | Inr s' \<Rightarrow> applySplices s' ys)"
  by (induction xs arbitrary: s) (auto split: sum.splits)

lemma editNames_splices:
  "editNames fieldEdits fld names (s, m) =
     withFlag (applySplices s (nameSplices fieldEdits fld names))
       (m \<or> nameSplices fieldEdits fld names \<noteq> [])"
  by (induction names arbitrary: s m)
     (auto simp: replaceType_def split: option.splits sum.splits)

lemma editFieldList_splices:
  "editFieldList fieldEdits flds (s, m) =
     withFlag (applySplices s (fieldSplices fieldEdits flds))
       (m \<or> fieldSplices fieldEdits flds \<noteq> [])"
proof (induction flds arbitrary: s m)
  case Nil
  then show ?case by (simp add: fieldSplices_def)
next
  case (Cons fld flds)
  show ?case
  proof (cases "Names fld")
    case Nil
    then show ?thesis using Cons.IH [of s m] by (simp add: fieldSplices_def)
  next
    case (Cons n ns)
    have step: "editNames fieldEdits fld (Names fld) (s, m) =
        withFlag (applySplices s (nameSplices fieldEdits fld (Names fld)))
          (m \<or> nameSplices fieldEdits fld (Names fld) \<noteq> [])"
      by (rule editNames_splices)
    show ?thesis
    proof (cases "applySplices s (nameSplices fieldEdits fld (Names fld))")
      case (Inl p)
      then show ?thesis using Cons step
        by (simp add: fieldSplices_def applySplices_append)
    next
      case (Inr s')
      then show ?thesis using Cons step Cons.IH [of s' "m \<or> nameSplices fieldEdits fld (Names fld) \<noteq> []"]
        by (auto simp add: fieldSplices_def applySplices_append)
    qed
  qed
qed

lemma editFields_splices:
  "editFields s flds fieldEdits =
     withFlag (applySplices s (fieldSplices fieldEdits flds)) (fieldSplices fieldEdits flds \<noteq> [])"
  by (simp add: editFields_def editFieldList_splices)

lemma fieldSplices_append:
  "fieldSplices fe (xs @ ys) = fieldSplices fe xs @ fieldSplices fe ys"
  by (simp add: fieldSplices_def)

lemma editSpecs_splices:
  "editSpecs structName fieldEdits specs (s, m) =
     withFlag (applySplices s (fieldSplices fieldEdits (concat (map (specFields structName) specs))))
       (m \<or> fieldSplices fieldEdits (concat (map (specFields structName) specs)) \<noteq> [])"
proof (induction structName fieldEdits specs "(s, m)" arbitrary: s m rule: editSpecs.induct)
  case (1 structName fieldEdits)
  then show ?case by (simp add: fieldSplices_def)
next
  case (2 structName fieldEdits name flds specs s modified)
  show ?case
  proof (cases "name = structName")
    case False
    then show ?thesis using 2 by simp
  next
    case True
    show ?thesis
    proof (cases "applySplices s (fieldSplices fieldEdits flds)")
      case (Inl p)
      then show ?thesis using True
        by (simp add: editFields_splices fieldSplices_append applySplices_append)
    next
      case (Inr s')
      then show ?thesis using True 2(2) [of "(s', fieldSplices fieldEdits flds \<noteq> [])" s' "fieldSplices fieldEdits flds \<noteq> []"]
        by (auto simp add: editFields_splices fieldSplices_append applySplices_append)
    qed
  qed
qed (simp_all)

lemma editDecls_splices:
  "editDecls structName fieldEdits decls (s, m) =
     withFlag (applySplices s (fieldSplices fieldEdits (concat (map (declFields structName) decls))))
       (m \<or> fieldSplices fieldEdits (concat (map (declFields structName) decls)) \<noteq> [])"
proof (induction structName fieldEdits decls "(s, m)" arbitrary: s m rule: editDecls.induct)
  case (1 structName fieldEdits)
  then show ?case by (simp add: fieldSplices_def)
next
  case (2 structName fieldEdits gd decls)
  show ?case
  proof (cases "Tok gd = T_TYPE")
    case False
    then show ?thesis using 2 by simp
  next
    case True
    let ?xs = "fieldSplices fieldEdits (concat (map (specFields structName) (Specs gd)))"
    show ?thesis
    proof (cases "applySplices s ?xs")
      case (Inl p)
      then show ?thesis using True
        by (simp add: editSpecs_splices fieldSplices_append applySplices_append)
    next
      case (Inr s')
      then show ?thesis using True 2(2)
        by (auto simp add: editSpecs_splices fieldSplices_append applySplices_append)
    qed
  qed
qed (simp_all)

lemma EditStruct_splices:
  "EditStruct e structName fieldEdits =
     (case applySplices (src e) (plannedSplices (efile e) structName fieldEdits) of
        Inl p \<Rightarrow> Inl p
      | Inr s' \<Rightarrow> Inr (e\<lparr>src := s'\<rparr>, plannedSplices (efile e) structName fieldEdits \<noteq> [], None))"
  by (simp add: EditStruct_def editDecls_splices plannedSplices_def matchedFields_def
      withFlag_def split: sum.splits)

lemma nameSplices_leftAlone:
  "list_all (\<lambda>name. case fieldEdits name of None \<Rightarrow> True
                     | Some newType \<Rightarrow> typeString (Type fld) = newType) names
   \<Longrightarrow> nameSplices fieldEdits fld names = []"
  by (induction names) (auto split: option.splits)

lemma fieldSplices_leftAlone:
  "list_all (leftAlone fieldEdits) flds \<Longrightarrow> fieldSplices fieldEdits flds = []"
  by (induction flds) (auto simp: fieldSplices_def leftAlone_def nameSplices_leftAlone)

lemma EditStruct_nothing_planned:
  assumes "plannedSplices (efile e) structName fieldEdits = []"
  shows "EditStruct e structName fieldEdits = Inr (e, False, None)"
  using assms by (simp add: EditStruct_splices)

lemma specFields_other_name:
  "name \<noteq> structName \<Longrightarrow> specFields structName (TypeSpec name ty) = []"
  by (cases ty) simp_all

lemma specFields_absent:
  "structName \<notin> set (specNames specs) \<Longrightarrow> concat (map (specFields structName) specs) = []"
  by (induction specs rule: specNames.induct) (auto simp: specFields_other_name)

lemma declFields_absent:
  "structName \<notin> set (declNames decls) \<Longrightarrow> concat (map (declFields structName) decls) = []"
  by (induction decls rule: declNames.induct)
     (auto simp add: specFields_absent simp del: concat_eq_Nil_conv split: if_splits)

lemma specFields_not_struct:
  "\<not> list_ex (isStructSpec structName) specs \<Longrightarrow> concat (map (specFields structName) specs) = []"
proof (induction specs)
  case Nil
  then show ?case by simp
next
  case (Cons sp specs)
  then have "specFields structName sp = []"
    by (cases "(structName, sp)" rule: specFields.cases) auto
  with Cons show ?case by simp
qed

lemma declFields_not_struct:
  "\<not> list_ex (declaresStructIn structName) decls
   \<Longrightarrow> concat (map (declFields structName) decls) = []"
proof (induction decls)
  case Nil
  then show ?case by simp
next
  case (Cons d decls)
  then have "declFields structName d = []"
    by (cases d) (auto simp: specFields_not_struct)
  with Cons show ?case by simp
qed

text \<open>
  C4: when the rendering of a named field's type (\<open>typeString\<close>, computed from the tree and
  never from the buffer) equals the text requested for it, the field adds neither a
  replacement nor the \<open>modified\<close> flag to \<open>editFields\<close>; and when that holds of every field
  of the structs that \<open>EditStruct\<close> visits, the call returns the editor as it was, with the
  same bytes, \<open>modified = false\<close> and a nil error.
\<close>

theorem noop_edit_not_modified:
  "(leftAlone fieldEdits fld \<longrightarrow>
      editFields s (pre @ fld # post) fieldEdits = editFields s (pre @ post) fieldEdits)
   \<and> (list_all (leftAlone fieldEdits) (matchedFields (efile e) structName) \<longrightarrow>
        EditStruct e structName fieldEdits = Inr (e, False, None))"
proof (intro conjI impI)
  assume "leftAlone fieldEdits fld"
  then have "fieldSplices fieldEdits [fld] = []"
    by (simp add: fieldSplices_leftAlone)
  then have "fieldSplices fieldEdits (pre @ fld # post) = fieldSplices fieldEdits (pre @ post)"
    by (simp add: fieldSplices_def)
  then show "editFields s (pre @ fld # post) fieldEdits = editFields s (pre @ post) fieldEdits"
    by (simp add: editFields_splices)
next
  assume "list_all (leftAlone fieldEdits) (matchedFields (efile e) structName)"
  then have "plannedSplices (efile e) structName fieldEdits = []"
    by (simp add: plannedSplices_def fieldSplices_leftAlone)
  then show "EditStruct e structName fieldEdits = Inr (e, False, None)"
    by (rule EditStruct_nothing_planned)
qed

theorem noop_edit_not_modified_witness:
  "leftAlone [''ID'' \<mapsto> ''int64''] idField
   \<and> editFields exampleSrc [idField, totalField] [''ID'' \<mapsto> ''int64''] =
       editFields exampleSrc [totalField] [''ID'' \<mapsto> ''int64'']
   \<and> EditStruct (newEditor exampleFile exampleSrc) ''Example'' [''ID'' \<mapsto> ''int64''] =
       Inr (newEditor exampleFile exampleSrc, False, None)"
proof -
  have h1: "leftAlone [''ID'' \<mapsto> ''int64''] idField"
    by code_simp
  have h2: "list_all (leftAlone [''ID'' \<mapsto> ''int64''])
              (matchedFields (efile (newEditor exampleFile exampleSrc)) ''Example'')"
    by code_simp
  show ?thesis
    using h1 h2
      noop_edit_not_modified [of "[''ID'' \<mapsto> ''int64'']" idField exampleSrc "[]" "[totalField]"
        "newEditor exampleFile exampleSrc" "''Example''"]
    by simp
qed

text \<open>
  C6, as stated: a new type identical to the current one returns \<open>modified = false\<close>. On
  the sample with the field \<open>C chan int\<close> and the edit \<open>C: chan int\<close>, \<open>typeString\<close> renders
  the channel type as the empty string, the comparison fails, the type is replaced by the
  same text and the call reports \<open>modified = true\<close>.
\<close>

theorem identical_channel_type_reports_modified:
  "outcome (EditStruct (newEditor chanFile chanSrc) ''T'' [''C'' \<mapsto> ''chan int'']) =
     Inr (''package p'' @ [nl, nl] @ ''type T struct {'' @ [nl] @
          [tab] @ ''C chan int'' @ [nl] @ ''}'' @ [nl], True)
   \<and> take 8 (drop 30 chanSrc) = ''chan int''"
  by code_simp

text \<open>
  C6, amended: \<open>EditStruct\<close> returns \<open>modified = false\<close>, a nil error and the buffer
  unchanged when the declaration name is not in the file, when no requested field name is a
  field of the matched declarations, when no declaration of that name is a struct type, and
  when every requested type is what \<open>typeString\<close> renders of the current one.
\<close>

theorem no_match_is_not_an_error:
  "(structName \<notin> set (StructNames e) \<longrightarrow>
      EditStruct e structName fieldEdits = Inr (e, False, None))
   \<and> ((\<forall>fld \<in> set (matchedFields (efile e) structName).
          \<forall>name \<in> set (Names fld). fieldEdits name = None) \<longrightarrow>
        EditStruct e structName fieldEdits = Inr (e, False, None))
   \<and> (\<not> declaresStruct (efile e) structName \<longrightarrow>
        EditStruct e structName fieldEdits = Inr (e, False, None))
   \<and> ((\<forall>fld \<in> set (matchedFields (efile e) structName).
          \<forall>name \<in> set (Names fld).
            \<forall>newType. fieldEdits name = Some newType \<longrightarrow> newType = typeString (Type fld)) \<longrightarrow>
        EditStruct e structName fieldEdits = Inr (e, False, None))"
proof (intro conjI impI)
  assume "structName \<notin> set (StructNames e)"
  then have "matchedFields (efile e) structName = []"
    by (simp add: StructNames_def matchedFields_def declFields_absent)
  then show "EditStruct e structName fieldEdits = Inr (e, False, None)"
    by (simp add: EditStruct_nothing_planned plannedSplices_def fieldSplices_def)
next
  assume "\<forall>fld \<in> set (matchedFields (efile e) structName).
            \<forall>name \<in> set (Names fld). fieldEdits name = None"
  then have "list_all (leftAlone fieldEdits) (matchedFields (efile e) structName)"
    by (simp add: list_all_iff leftAlone_def)
  then show "EditStruct e structName fieldEdits = Inr (e, False, None)"
    by (simp add: EditStruct_nothing_planned plannedSplices_def fieldSplices_leftAlone)
next
  assume "\<not> declaresStruct (efile e) structName"
  then have "matchedFields (efile e) structName = []"
    by (simp add: declaresStruct_def matchedFields_def declFields_not_struct)
  then show "EditStruct e structName fieldEdits = Inr (e, False, None)"
    by (simp add: EditStruct_nothing_planned plannedSplices_def fieldSplices_def)
next
  assume "\<forall>fld \<in> set (matchedFields (efile e) structName).
            \<forall>name \<in> set (Names fld).
              \<forall>newType. fieldEdits name = Some newType \<longrightarrow> newType = typeString (Type fld)"
  then have "list_all (leftAlone fieldEdits) (matchedFields (efile e) structName)"
    by (auto simp add: list_all_iff leftAlone_def split: option.splits)
  then show "EditStruct e structName fieldEdits = Inr (e, False, None)"
    by (simp add: EditStruct_nothing_planned plannedSplices_def fieldSplices_leftAlone)
qed

lemma exampleFile_matched:
  "matchedFields (efile (newEditor exampleFile exampleSrc)) ''Example'' = [idField, totalField]"
  by (simp add: matchedFields_def newEditor_def exampleFile_def)

theorem no_match_is_not_an_error_witness:
  "''NonExistent'' \<notin> set (StructNames (newEditor exampleFile exampleSrc))
   \<and> EditStruct (newEditor exampleFile exampleSrc) ''NonExistent'' [''ID'' \<mapsto> ''string''] =
       Inr (newEditor exampleFile exampleSrc, False, None)
   \<and> EditStruct (newEditor exampleFile exampleSrc) ''Example'' [''NonExistent'' \<mapsto> ''string''] =
       Inr (newEditor exampleFile exampleSrc, False, None)
   \<and> \<not> declaresStruct (efile (newEditor aliasFile aliasSrc)) ''ID''
   \<and> EditStruct (newEditor aliasFile aliasSrc) ''ID'' [''Foo'' \<mapsto> ''string''] =
       Inr (newEditor aliasFile aliasSrc, False, None)
   \<and> EditStruct (newEditor exampleFile exampleSrc) ''Example'' [''ID'' \<mapsto> ''int64''] =
       Inr (newEditor exampleFile exampleSrc, False, None)"
proof -
  have a: "''NonExistent'' \<notin> set (StructNames (newEditor exampleFile exampleSrc))"
    by code_simp
  have b: "\<forall>fld \<in> set (matchedFields (efile (newEditor exampleFile exampleSrc)) ''Example'').
             \<forall>name \<in> set (Names fld). [''NonExistent'' \<mapsto> ''string''] name = None"
    by (simp add: exampleFile_matched idField_def totalField_def)
  have c: "\<not> declaresStruct (efile (newEditor aliasFile aliasSrc)) ''ID''"
    by code_simp
  have d: "\<forall>fld \<in> set (matchedFields (efile (newEditor exampleFile exampleSrc)) ''Example'').
             \<forall>name \<in> set (Names fld).
               \<forall>newType. [''ID'' \<mapsto> ''int64''] name = Some newType \<longrightarrow>
                 newType = typeString (Type fld)"
    by (simp add: exampleFile_matched idField_def totalField_def)
  show ?thesis
    using a b c d
      no_match_is_not_an_error [of "''NonExistent''" "newEditor exampleFile exampleSrc"
        "[''ID'' \<mapsto> ''string'']"]
      no_match_is_not_an_error [of "''Example''" "newEditor exampleFile exampleSrc"
        "[''NonExistent'' \<mapsto> ''string'']"]
      no_match_is_not_an_error [of "''ID''" "newEditor aliasFile aliasSrc"
        "[''Foo'' \<mapsto> ''string'']"]
      no_match_is_not_an_error [of "''Example''" "newEditor exampleFile exampleSrc"
        "[''ID'' \<mapsto> ''int64'']"]
    by blast
qed

section \<open>Several edits in one buffer\<close>

text \<open>A single replacement keeps every byte before the span and every byte after it.\<close>

lemma splice_frame:
  assumes "splice s start end text = Inr s'"
  shows "take start s' = take start s \<and> drop (start + length text) s' = drop end s
         \<and> take (length text) (drop start s') = text"
proof -
  from assms have le: "start \<le> end" "end \<le> length s"
    and s': "s' = take start s @ text @ drop end s"
    by (auto simp: splice_def split: if_splits)
  from le have len: "length (take start s) = start" by simp
  show ?thesis
    using len by (simp add: s')
qed

text \<open>
  C1: two edits in one declaration whose texts differ in length from the originals should
  both land at the right place, whatever the order of application. On the sample struct,
  with \<open>ID: int64 \<rightarrow> string\<close> and \<open>Total: *int64 \<rightarrow> uint64\<close>, \<open>EditStruct\<close> replaces the second
  span at its parse-time offsets in the buffer the first replacement made one byte longer:
  the line becomes \<open>Totaluint644\<close>. The same two edits as two calls give that buffer when
  \<open>ID\<close> goes first and the intended one, \<open>Total uint64\<close>, when \<open>Total\<close> goes first.
\<close>

theorem encounter_order_misplaces_second_edit:
  "outcome (EditStruct (newEditor exampleFile exampleSrc) ''Example''
             [''ID'' \<mapsto> ''string'', ''Total'' \<mapsto> ''uint64'']) =
     Inr (''package test'' @ [nl, nl] @ ''type Example struct {'' @ [nl] @
          [tab] @ ''ID    string'' @ [nl] @
          [tab] @ ''Totaluint644'' @ [nl] @
          ''}'' @ [nl], True)
   \<and> outcome (thenEditStruct
               (EditStruct (newEditor exampleFile exampleSrc) ''Example'' [''ID'' \<mapsto> ''string''])
               ''Example'' [''Total'' \<mapsto> ''uint64'']) =
     Inr (''package test'' @ [nl, nl] @ ''type Example struct {'' @ [nl] @
          [tab] @ ''ID    string'' @ [nl] @
          [tab] @ ''Totaluint644'' @ [nl] @
          ''}'' @ [nl], True)
   \<and> outcome (thenEditStruct
               (EditStruct (newEditor exampleFile exampleSrc) ''Example'' [''Total'' \<mapsto> ''uint64''])
               ''Example'' [''ID'' \<mapsto> ''string'']) =
     Inr (''package test'' @ [nl, nl] @ ''type Example struct {'' @ [nl] @
          [tab] @ ''ID    string'' @ [nl] @
          [tab] @ ''Total uint64'' @ [nl] @
          ''}'' @ [nl], True)"
  by code_simp

text \<open>
  C2: every byte outside the edited spans should be the same before and after, struct tags
  and comments included. On the sample with a tag, with \<open>A: int \<rightarrow> time.Time\<close> and
  \<open>B: int \<rightarrow> bool\<close>, the second replacement falls six bytes to the left of the type of
  \<open>B\<close>: it overwrites the end of the tag of \<open>A\<close> (bytes 34 to 44 of the file, outside both
  spans) and the line break after it, and the type of \<open>B\<close> is still \<open>int\<close>.
\<close>

theorem second_edit_overwrites_struct_tag:
  "outcome (EditStruct (newEditor tagFile tagSrc) ''T''
             [''A'' \<mapsto> ''time.Time'', ''B'' \<mapsto> ''bool'']) =
     Inr (''package p'' @ [nl, nl] @ ''type T struct {'' @ [nl] @
          [tab] @ ''A time.Time '' @ [bq] @ ''json:'' @ [dq] @ ''abool'' @
          [tab] @ ''B int // count'' @ [nl] @
          ''}'' @ [nl], True)
   \<and> take 10 (drop 34 tagSrc) = [bq] @ ''json:'' @ [dq] @ ''a'' @ [dq, bq]"
  by code_simp

text \<open>A field without names is passed over: it asks for no replacement.\<close>

lemma embedded_field_is_skipped:
  assumes "Names fld = []"
  shows "editFields s (pre @ fld # post) fieldEdits = editFields s (pre @ post) fieldEdits"
proof -
  from assms
  have "fieldSplices fieldEdits (pre @ fld # post) = fieldSplices fieldEdits (pre @ post)"
    by (simp add: fieldSplices_def)
  then show ?thesis
    by (simp add: editFields_splices)
qed

text \<open>
  C10: the bytes of an embedded field should never change, whatever the edits. The loop
  does skip a field without names, but on the sample with the embedded field \<open>Base\<close>
  between \<open>A\<close> and \<open>B\<close>, with \<open>A: int \<rightarrow> []float64\<close> and \<open>B: int \<rightarrow> uint\<close>, the replacement meant
  for \<open>B\<close> lands on the last two bytes of \<open>Base\<close> and the line break: the line becomes
  \<open>Bauint\<close>.
\<close>

theorem second_edit_overwrites_embedded_field:
  "outcome (EditStruct (newEditor embedFile embedSrc) ''T''
             [''A'' \<mapsto> ''[]float64'', ''B'' \<mapsto> ''uint'']) =
     Inr (''package p'' @ [nl, nl] @ ''type T struct {'' @ [nl] @
          [tab] @ ''A []float64'' @ [nl] @
          [tab] @ ''Bauint'' @
          [tab] @ ''B int'' @ [nl] @
          ''}'' @ [nl], True)"
  by code_simp

section \<open>The same edit, requested again\<close>

text \<open>
  C9: after an edit has been applied, the same call should report \<open>modified = true\<close> again
  and splice again. On the sample with \<open>A float64\<close> and \<open>A: float64 \<rightarrow> int\<close> the first call
  shortens the buffer to 36 bytes, and the second call slices it from the parse-time end 37
  of the type: it panics and reports nothing.
\<close>

theorem repeated_edit_panics:
  "outcome (EditStruct (newEditor floatFile floatSrc) ''T'' [''A'' \<mapsto> ''int'']) =
     Inr (''package p'' @ [nl, nl] @ ''type T struct {'' @ [nl] @
          [tab] @ ''A int'' @ [nl] @ ''}'' @ [nl], True)
   \<and> outcome (thenEditStruct
               (EditStruct (newEditor floatFile floatSrc) ''T'' [''A'' \<mapsto> ''int''])
               ''T'' [''A'' \<mapsto> ''int'']) =
     Inl SliceBoundsOutOfRange"
  by code_simp

text \<open>
  The comparison reads the tree built at parse time and never the buffer: after a call
  that modified the buffer, the same call plans the same replacements again and applies
  them to the buffer as it is now.
\<close>

lemma repeated_edit_uses_parse_time_offsets:
  assumes "EditStruct e structName fieldEdits = Inr (e1, True, err)"
  shows "efile e1 = efile e
     \<and> applySplices (src e) (plannedSplices (efile e) structName fieldEdits) = Inr (src e1)
     \<and> EditStruct e1 structName fieldEdits =
         (case applySplices (src e1) (plannedSplices (efile e) structName fieldEdits) of
            Inl p \<Rightarrow> Inl p
          | Inr s2 \<Rightarrow> Inr (e1\<lparr>src := s2\<rparr>, True, None))"
proof -
  let ?plan = "plannedSplices (efile e) structName fieldEdits"
  from assms obtain s1 where
    s1: "applySplices (src e) ?plan = Inr s1" and e1: "e1 = e\<lparr>src := s1\<rparr>"
    and ne: "?plan \<noteq> []"
    by (auto simp: EditStruct_splices split: sum.splits)
  from e1 have f: "efile e1 = efile e" and b: "src e1 = s1"
    by simp_all
  have "EditStruct e1 structName fieldEdits =
      (case applySplices (src e1) ?plan of
         Inl p \<Rightarrow> Inl p
       | Inr s2 \<Rightarrow> Inr (e1\<lparr>src := s2\<rparr>, True, None))"
    using ne by (simp add: EditStruct_splices f split: sum.splits)
  with f s1 b show ?thesis by simp
qed

lemma repeated_edit_uses_parse_time_offsets_witness:
  "outcome (EditStruct (newEditor exampleFile exampleSrc) ''Example'' [''ID'' \<mapsto> ''string'']) =
     Inr (''package test'' @ [nl, nl] @ ''type Example struct {'' @ [nl] @
          [tab] @ ''ID    string'' @ [nl] @
          [tab] @ ''Total *int64'' @ [nl] @
          ''}'' @ [nl], True)
   \<and> outcome (EditStruct
        ((newEditor exampleFile exampleSrc)
           \<lparr>src := ''package test'' @ [nl, nl] @ ''type Example struct {'' @ [nl] @
                   [tab] @ ''ID    string'' @ [nl] @
                   [tab] @ ''Total *int64'' @ [nl] @
                   ''}'' @ [nl]\<rparr>) ''Example'' [''ID'' \<mapsto> ''string'']) =
     Inr (''package test'' @ [nl, nl] @ ''type Example struct {'' @ [nl] @
          [tab] @ ''ID    stringg'' @ [nl] @
          [tab] @ ''Total *int64'' @ [nl] @
          ''}'' @ [nl], True)"
proof -
  let ?e = "newEditor exampleFile exampleSrc"
  let ?s1 = "''package test'' @ [nl, nl] @ ''type Example struct {'' @ [nl] @
          [tab] @ ''ID    string'' @ [nl] @
          [tab] @ ''Total *int64'' @ [nl] @
          ''}'' @ [nl]"
  let ?s2 = "''package test'' @ [nl, nl] @ ''type Example struct {'' @ [nl] @
          [tab] @ ''ID    stringg'' @ [nl] @
          [tab] @ ''Total *int64'' @ [nl] @
          ''}'' @ [nl]"
  let ?plan = "plannedSplices (efile ?e) ''Example'' [''ID'' \<mapsto> ''string'']"
  have p: "?plan \<noteq> []"
    by code_simp
  have a1: "applySplices (src ?e) ?plan = Inr ?s1"
    by code_simp
  have a2: "applySplices ?s1 ?plan = Inr ?s2"
    by code_simp
  have first: "EditStruct ?e ''Example'' [''ID'' \<mapsto> ''string''] = Inr (?e\<lparr>src := ?s1\<rparr>, True, None)"
    using p a1 by (simp add: EditStruct_splices)
  from repeated_edit_uses_parse_time_offsets [OF first]
  have "EditStruct (?e\<lparr>src := ?s1\<rparr>) ''Example'' [''ID'' \<mapsto> ''string''] =
          Inr (?e\<lparr>src := ?s2\<rparr>, True, None)"
    using a2 by simp
  with first show ?thesis
    by (simp add: outcome_def)
qed

section \<open>Properties of the import manager\<close>

lemma Join_lines:
  "xs \<noteq> [] \<Longrightarrow> Join xs [nl] @ [nl] = concat (map (\<lambda>x. x @ [nl]) xs)"
  by (induction xs "[nl]" rule: Join.induct) simp_all

lemma block_text:
  assumes "entries \<noteq> []"
  shows "''('' @ [nl] @ Join (map (\<lambda>e. tab # e) entries) [nl] @ [nl] @ '')'' = importBlock entries"
proof -
  have "Join (map (\<lambda>e. tab # e) entries) [nl] @ [nl] =
        concat (map (\<lambda>x. x @ [nl]) (map (\<lambda>e. tab # e) entries))"
    using assms by (simp add: Join_lines)
  also have "\<dots> = concat (map (\<lambda>e. tab # e @ [nl]) entries)"
    by (simp add: comp_def)
  finally show ?thesis
    by (simp add: importBlock_def)
qed

lemma block_lines:
  "map oldLine specs @ map newLine toAdd =
     map (\<lambda>e. tab # e) (map specString specs @ map (\<lambda>sp. quoted (specPath sp)) toAdd)"
  by (simp add: oldLine_def newLine_def quoted_def comp_def)

lemma addToBlock_text:
  assumes "toAdd \<noteq> []"
  shows "addToBlock gd toAdd s =
     (case splice s (offset (Lparen gd)) (offset (Rparen gd) + 1)
             (importBlock (map specString (Specs gd) @ map (\<lambda>sp. quoted (specPath sp)) toAdd)) of
        Inl p \<Rightarrow> Inl p
      | Inr s' \<Rightarrow> Inr (s', None))"
proof -
  let ?entries = "map specString (Specs gd) @ map (\<lambda>sp. quoted (specPath sp)) toAdd"
  have "?entries \<noteq> []" using assms by simp
  then have "''('' @ [nl] @ Join (map (\<lambda>e. tab # e) ?entries) [nl] @ [nl] @ '')'' = importBlock ?entries"
    by (rule block_text)
  then show ?thesis
    by (simp add: addToBlock_def Let_def block_lines del: map_append)
qed

lemma convertToBlockFrom_here:
  assumes "Tok gd = T_IMPORT" and "toAdd \<noteq> []"
  shows "convertToBlockFrom (GenDecl gd # decls) toAdd s =
     (case splice s (DeclPos gd) (DeclEnd gd)
             (''import '' @ importBlock (map specString (Specs gd) @ map (\<lambda>sp. quoted (specPath sp)) toAdd)) of
        Inl p \<Rightarrow> Inl p
      | Inr s' \<Rightarrow> Inr (s', None))"
proof -
  let ?entries = "map specString (Specs gd) @ map (\<lambda>sp. quoted (specPath sp)) toAdd"
  have "?entries \<noteq> []" using assms(2) by simp
  then have "''('' @ [nl] @ Join (map (\<lambda>e. tab # e) ?entries) [nl] @ [nl] @ '')'' = importBlock ?entries"
    by (rule block_text)
  then show ?thesis
    using assms(1) by (simp add: Let_def block_lines del: map_append)
qed

lemma convertToBlockFrom_found:
  assumes "findImportDeclFrom decls = Some gd" and "toAdd \<noteq> []"
  shows "convertToBlockFrom decls toAdd s =
     (case splice s (DeclPos gd) (DeclEnd gd)
             (''import '' @ importBlock (map specString (Specs gd) @ map (\<lambda>sp. quoted (specPath sp)) toAdd)) of
        Inl p \<Rightarrow> Inl p
      | Inr s' \<Rightarrow> Inr (s', None))"
  using assms(1)
proof (induction decls)
  case Nil
  then show ?case by simp
next
  case (Cons d decls)
  show ?case
  proof (cases d)
    case (GenDecl g)
    show ?thesis
    proof (cases "Tok g = T_IMPORT")
      case True
      with Cons.prems GenDecl have "g = gd" by simp
      with True GenDecl show ?thesis
        using convertToBlockFrom_here [OF _ assms(2), of gd decls s] by simp
    next
      case False
      with Cons GenDecl show ?thesis by simp
    qed
  next
    case (FuncDecl n)
    with Cons show ?thesis by simp
  next
    case BadDecl
    with Cons show ?thesis by simp
  qed
qed



lemma insertNewImportBlock_text:
  "insertNewImportBlock im [\<lparr>specAlias = a, specPath = p\<rparr>] s =
     (case splice s (findInsertPosition im) (findInsertPosition im)
             (''import '' @ importBlock [quoted p] @ [nl, nl]) of
        Inl x \<Rightarrow> Inl x
      | Inr s' \<Rightarrow> Inr (s', None))"
  by (simp add: insertNewImportBlock_def Let_def importBlock_def newLine_def quoted_def)


lemma addLoop_nothing_new:
  "delta ex required = [] \<Longrightarrow> addLoop required ex acc = (ex, acc)"
  by (induction required arbitrary: ex acc) (auto simp: delta_def split: if_splits)


lemma addLoop_keeps:
  "ex k \<noteq> None \<Longrightarrow> fst (addLoop required ex acc) k \<noteq> None"
  by (induction required arbitrary: ex acc) (auto split: if_splits)

lemma addLoop_binds:
  "(a, p) \<in> set required \<Longrightarrow> fst (addLoop required ex acc) a \<noteq> None"
proof (induction required arbitrary: ex acc)
  case Nil
  then show ?case by simp
next
  case (Cons r required)
  obtain b q where r: "r = (b, q)" by (cases r)
  show ?case
  proof (cases "(a, p) = (b, q)")
    case True
    then show ?thesis
      using addLoop_keeps [of "ex(a \<mapsto> p)" a required] addLoop_keeps [of ex a required]
      by (auto simp: r)
  next
    case False
    with Cons.prems r have "(a, p) \<in> set required" by auto
    then show ?thesis using Cons.IH by (simp add: r)
  qed
qed

lemma delta_after_addLoop:
  "delta (fst (addLoop required ex acc)) required = []"
  using addLoop_binds [of _ _ required ex acc]
  by (auto simp: delta_def filter_empty_conv)

lemma addLoop_append:
  "addLoop (r1 @ r2) ex acc =
     (case addLoop r1 ex acc of (ex', acc') \<Rightarrow> addLoop r2 ex' acc')"
  by (induction r1 arbitrary: ex acc) auto

lemma add_nothing_new:
  assumes "delta (existing im) required = []"
  shows "add im required s = Inr (im, s, None)"
  using assms by (simp add: add_def addLoop_nothing_new)

lemma add_state:
  assumes "add im required s = Inr (im1, s1, err)"
  shows "im1 = im\<lparr>existing := fst (addLoop required (existing im) [])\<rparr>"
  using assms
  by (auto simp: add_def Let_def split: prod.splits if_splits sum.splits)

lemma existingFrom_keeps:
  "ex k \<noteq> None \<Longrightarrow> existingFrom imps ex k \<noteq> None"
  by (induction imps arbitrary: ex) (auto simp: Let_def)

lemma existingFrom_named:
  "(Some n, pv) \<in> set imps \<Longrightarrow> existingFrom imps ex n \<noteq> None"
proof (induction imps arbitrary: ex)
  case Nil
  then show ?case by simp
next
  case (Cons imp imps)
  show ?case
  proof (cases "imp = (Some n, pv)")
    case True
    then show ?thesis
      using existingFrom_keeps [of "ex(n \<mapsto> Trim pv dq)" n imps] by (simp add: Let_def)
  next
    case False
    with Cons.prems have "(Some n, pv) \<in> set imps" by auto
    then show ?thesis
      using Cons.IH by (cases imp) (simp add: Let_def)
  qed
qed

lemma existingFrom_unnamed:
  "(None, pv) \<in> set imps \<Longrightarrow>
   existingFrom imps ex (last (Split (Trim pv dq) (CHR ''/''))) \<noteq> None"
proof (induction imps arbitrary: ex)
  case Nil
  then show ?case by simp
next
  case (Cons imp imps)
  let ?k = "last (Split (Trim pv dq) (CHR ''/''))"
  show ?case
  proof (cases "imp = (None, pv)")
    case True
    then show ?thesis
      using existingFrom_keeps [of "ex(?k \<mapsto> Trim pv dq)" ?k imps] by (simp add: Let_def)
  next
    case False
    with Cons.prems have "(None, pv) \<in> set imps" by auto
    then show ?thesis
      using Cons.IH by (cases imp) (simp add: Let_def)
  qed
qed

lemma AddImports_nothing_new:
  assumes "delta (existing (eimports e)) required = []"
  shows "AddImports e required = Inr (e, None)"
  using assms by (simp add: AddImports_def add_nothing_new)

lemma delta_empty_iff:
  "delta ex required = [] \<longleftrightarrow> list_all (\<lambda>(a, p). ex a \<noteq> None) required"
  by (auto simp: delta_def filter_empty_conv list_all_iff)

lemma add_one_new:
  assumes "existing im a = None"
  shows "add im [(a, p)] s =
     (case (if Imports (imFile im) = []
            then insertNewImportBlock im [\<lparr>specAlias = a, specPath = p\<rparr>] s
            else (case findImportDecl im of
                    Some importDecl \<Rightarrow>
                      if Lparen importDecl \<noteq> None
                      then addToBlock importDecl [\<lparr>specAlias = a, specPath = p\<rparr>] s
                      else convertToBlock im [\<lparr>specAlias = a, specPath = p\<rparr>] s
                  | None \<Rightarrow> convertToBlock im [\<lparr>specAlias = a, specPath = p\<rparr>] s)) of
        Inl x \<Rightarrow> Inl x
      | Inr (s', err) \<Rightarrow> Inr (im\<lparr>existing := (existing im)(a \<mapsto> p)\<rparr>, s', err))"
  using assms
  by (simp add: add_def Let_def insertNewImportBlock_def findInsertPosition_def
      findImportDecl_def convertToBlock_def split: option.splits)

lemma AddImports_example_time:
  "AddImports (newEditor exampleFile exampleSrc) [(''time'', ''time'')] =
     Inr (withImport (newEditor exampleFile exampleSrc)
            (''package test'' @ [nl, nl] @
             ''import ('' @ [nl] @ [tab] @ quoted ''time'' @ [nl] @ '')'' @ [nl, nl] @
             ''type Example struct {'' @ [nl] @
             [tab] @ ''ID    int64'' @ [nl] @
             [tab] @ ''Total *int64'' @ [nl] @
             ''}'' @ [nl]) ''time'' ''time'', None)"
proof -
  let ?e = "newEditor exampleFile exampleSrc"
  have x: "existing (eimports ?e) ''time'' = None"
    by code_simp
  have i: "Imports (imFile (eimports ?e)) = []"
    by code_simp
  have s: "splice (src ?e) (findInsertPosition (eimports ?e)) (findInsertPosition (eimports ?e))
             (''import '' @ importBlock [quoted ''time''] @ [nl, nl]) =
           Inr (''package test'' @ [nl, nl] @
             ''import ('' @ [nl] @ [tab] @ quoted ''time'' @ [nl] @ '')'' @ [nl, nl] @
             ''type Example struct {'' @ [nl] @
             [tab] @ ''ID    int64'' @ [nl] @
             [tab] @ ''Total *int64'' @ [nl] @
             ''}'' @ [nl])"
    by code_simp
  show ?thesis
    using i s by (simp add: AddImports_def add_one_new [OF x] insertNewImportBlock_text withImport_def)
qed

lemma specString_kept: "specString (ImportSpec n pathValue) = keptEntry (n, pathValue)"
  by (cases n) simp_all

lemma specString_kept_all:
  "map specString (map (\<lambda>(n, pathValue). ImportSpec n pathValue) entries) = map keptEntry entries"
  by (induction entries) (auto simp: specString_kept)

text \<open>
  C3: one new required import (its alias not bound yet), added to a file as parsed.
  With no import in the file, a new block with that one entry, followed by a blank line, is
  put at the insert position; with a single import declaration without parentheses, the
  declaration is replaced by a block of its entry, with its alias if it has one, and the
  new one; with a block, the text from the opening to the closing parenthesis is replaced
  by a block of the entries it had, each with its alias if it has one, in their order, and
  the new one at the end, so a block stays a block. The offsets of the tree are taken to
  lie in the buffer, as they do after a parse.
\<close>

theorem import_state_transitions:
  assumes "existing (eimports e) a = None"
  shows "(Imports (imFile (eimports e)) = [] \<and> pos = findInsertPosition (eimports e)
          \<and> pos \<le> length (src e) \<longrightarrow>
            AddImports e [(a, p)] =
              Inr (withImport e
                     (take pos (src e) @ ''import '' @ importBlock [quoted p] @ [nl, nl] @
                      drop pos (src e)) a p, None))
       \<and> (Imports (imFile (eimports e)) \<noteq> [] \<and> findImportDecl (eimports e) = Some gd
          \<and> Lparen gd = None \<and> Specs gd = [ImportSpec n pathValue]
          \<and> DeclPos gd \<le> DeclEnd gd \<and> DeclEnd gd \<le> length (src e) \<longrightarrow>
            AddImports e [(a, p)] =
              Inr (withImport e
                     (take (DeclPos gd) (src e) @
                      ''import '' @ importBlock [keptEntry (n, pathValue), quoted p] @
                      drop (DeclEnd gd) (src e)) a p, None))
       \<and> (Imports (imFile (eimports e)) \<noteq> [] \<and> findImportDecl (eimports e) = Some gd
          \<and> Lparen gd = Some lp \<and> Rparen gd = Some rp
          \<and> Specs gd = map (\<lambda>(n, pathValue). ImportSpec n pathValue) entries
          \<and> lp \<le> rp \<and> rp < length (src e) \<longrightarrow>
            AddImports e [(a, p)] =
              Inr (withImport e
                     (take lp (src e) @
                      importBlock (map keptEntry entries @ [quoted p]) @
                      drop (rp + 1) (src e)) a p, None))"
  (is "(?P1 \<longrightarrow> ?Q1) \<and> (?P2 \<longrightarrow> ?Q2) \<and> (?P3 \<longrightarrow> ?Q3)")
proof -
  let ?new = "[\<lparr>specAlias = a, specPath = p\<rparr>]"
  note one = add_one_new [OF assms, of p "src e"]
  have 1: "?P1 \<longrightarrow> ?Q1"
  proof
    assume h: ?P1
    then have "insertNewImportBlock (eimports e) ?new (src e) =
        Inr (take pos (src e) @ ''import '' @ importBlock [quoted p] @ [nl, nl] @ drop pos (src e),
             None)"
      by (simp add: insertNewImportBlock_text splice_def)
    with h show ?Q1
      by (simp add: AddImports_def one withImport_def)
  qed
  have 2: "?P2 \<longrightarrow> ?Q2"
  proof
    assume h: ?P2
    then have "convertToBlock (eimports e) ?new (src e) =
        Inr (take (DeclPos gd) (src e) @
             ''import '' @ importBlock [keptEntry (n, pathValue), quoted p] @
             drop (DeclEnd gd) (src e), None)"
      using convertToBlockFrom_found [of "Decls (imFile (eimports e))" gd ?new "src e"]
      by (simp add: convertToBlock_def findImportDecl_def splice_def specString_kept)
    with h show ?Q2
      by (simp add: AddImports_def one withImport_def)
  qed
  have 3: "?P3 \<longrightarrow> ?Q3"
  proof
    assume h: ?P3
    then have sp: "Specs gd = map (\<lambda>(n, pathValue). ImportSpec n pathValue) entries"
      by blast
    have m: "map specString (Specs gd) = map keptEntry entries"
      by (simp only: sp specString_kept_all)
    have ne: "?new \<noteq> []"
      by simp
    have "addToBlock gd ?new (src e) =
        (case splice (src e) (offset (Lparen gd)) (offset (Rparen gd) + 1)
                (importBlock (map keptEntry entries @ map (\<lambda>sp. quoted (specPath sp)) ?new)) of
           Inl x \<Rightarrow> Inl x
         | Inr s' \<Rightarrow> Inr (s', None))"
      using addToBlock_text [OF ne, of gd "src e"] by (simp only: m)
    with h have "addToBlock gd ?new (src e) =
        Inr (take lp (src e) @ importBlock (map keptEntry entries @ [quoted p]) @
             drop (rp + 1) (src e), None)"
      by (simp add: splice_def)
    with h show ?Q3
      by (simp add: AddImports_def one withImport_def)
  qed
  from 1 2 3 show ?thesis
    by (intro conjI)
qed

theorem import_state_transitions_witness:
  "importOutcome (AddImports (newEditor exampleFile exampleSrc) [(''time'', ''time'')]) =
     Inr (''package test'' @ [nl, nl] @
          ''import ('' @ [nl] @ [tab] @ quoted ''time'' @ [nl] @ '')'' @ [nl, nl] @
          ''type Example struct {'' @ [nl] @
          [tab] @ ''ID    int64'' @ [nl] @
          [tab] @ ''Total *int64'' @ [nl] @
          ''}'' @ [nl], None)
   \<and> importOutcome (AddImports (newEditor mathFile mathSrc) [(''os'', ''os'')]) =
     Inr (''package p'' @ [nl, nl] @
          ''import ('' @ [nl] @ [tab] @ ''m '' @ quoted ''math'' @ [nl] @
          [tab] @ quoted ''os'' @ [nl] @ '')'' @ [nl, nl] @
          ''type T struct {'' @ [nl] @ [tab] @ ''A int'' @ [nl] @ ''}'' @ [nl], None)
   \<and> importOutcome (AddImports (newEditor twoFile twoSrc) [(''os'', ''os'')]) =
     Inr (''package p'' @ [nl, nl] @
          ''import ('' @ [nl] @ [tab] @ quoted ''net/http'' @ [nl] @
          [tab] @ ''mytime '' @ quoted ''time'' @ [nl] @
          [tab] @ quoted ''os'' @ [nl] @ '')'' @ [nl, nl] @
          ''type T struct {'' @ [nl] @ [tab] @ ''A int'' @ [nl] @ ''}'' @ [nl], None)"
proof -
  let ?e1 = "newEditor exampleFile exampleSrc"
  let ?e2 = "newEditor mathFile mathSrc"
  let ?e3 = "newEditor twoFile twoSrc"
  let ?gd2 = "\<lparr>Tok = T_IMPORT, DeclPos = 11, DeclEnd = 26, Lparen = None, Rparen = None,
                Specs = [ImportSpec (Some ''m'') (quoted ''math'')]\<rparr>"
  let ?gd3 = "\<lparr>Tok = T_IMPORT, DeclPos = 11, DeclEnd = 48, Lparen = Some 18,
                Rparen = Some 47,
                Specs = [ImportSpec None (quoted ''net/http''),
                         ImportSpec (Some ''mytime'') (quoted ''time'')]\<rparr>"
  let ?ents = "[(None, quoted ''net/http''), (Some ''mytime'', quoted ''time'')]"
  have x1: "existing (eimports ?e1) ''time'' = None"
    by code_simp
  have h1: "Imports (imFile (eimports ?e1)) = [] \<and> 14 = findInsertPosition (eimports ?e1)
            \<and> 14 \<le> length (src ?e1)"
    by code_simp
  have t1: "take 14 (src ?e1) @ ''import '' @ importBlock [quoted ''time''] @ [nl, nl] @
            drop 14 (src ?e1) =
          ''package test'' @ [nl, nl] @
          ''import ('' @ [nl] @ [tab] @ quoted ''time'' @ [nl] @ '')'' @ [nl, nl] @
          ''type Example struct {'' @ [nl] @
          [tab] @ ''ID    int64'' @ [nl] @
          [tab] @ ''Total *int64'' @ [nl] @
          ''}'' @ [nl]"
    by code_simp
  have r1: "importOutcome (AddImports ?e1 [(''time'', ''time'')]) =
     Inr (take 14 (src ?e1) @ ''import '' @ importBlock [quoted ''time''] @ [nl, nl] @
            drop 14 (src ?e1), None)"
    using import_state_transitions [OF x1, of 14 "''time''"] h1
    by (simp add: importOutcome_def withImport_def)
  have x2: "existing (eimports ?e2) ''os'' = None"
    by code_simp
  have h2: "Imports (imFile (eimports ?e2)) \<noteq> [] \<and> findImportDecl (eimports ?e2) = Some ?gd2
          \<and> Lparen ?gd2 = None \<and> Specs ?gd2 = [ImportSpec (Some ''m'') (quoted ''math'')]
          \<and> DeclPos ?gd2 \<le> DeclEnd ?gd2 \<and> DeclEnd ?gd2 \<le> length (src ?e2)"
    by code_simp
  have t2: "take (DeclPos ?gd2) (src ?e2) @
            ''import '' @ importBlock [keptEntry (Some ''m'', quoted ''math''), quoted ''os''] @
            drop (DeclEnd ?gd2) (src ?e2) =
          ''package p'' @ [nl, nl] @
          ''import ('' @ [nl] @ [tab] @ ''m '' @ quoted ''math'' @ [nl] @
          [tab] @ quoted ''os'' @ [nl] @ '')'' @ [nl, nl] @
          ''type T struct {'' @ [nl] @ [tab] @ ''A int'' @ [nl] @ ''}'' @ [nl]"
    by code_simp
  have r2: "importOutcome (AddImports ?e2 [(''os'', ''os'')]) =
     Inr (take (DeclPos ?gd2) (src ?e2) @
            ''import '' @ importBlock [keptEntry (Some ''m'', quoted ''math''), quoted ''os''] @
            drop (DeclEnd ?gd2) (src ?e2), None)"
    using import_state_transitions [OF x2, where gd = ?gd2 and n = "Some ''m''"
        and pathValue = "quoted ''math''" and p = "''os''"] h2
    by (simp add: importOutcome_def withImport_def)
  have x3: "existing (eimports ?e3) ''os'' = None"
    by code_simp
  have h3: "Imports (imFile (eimports ?e3)) \<noteq> [] \<and> findImportDecl (eimports ?e3) = Some ?gd3
          \<and> Lparen ?gd3 = Some 18 \<and> Rparen ?gd3 = Some 47
          \<and> Specs ?gd3 = map (\<lambda>(n, pathValue). ImportSpec n pathValue) ?ents
          \<and> (18::nat) \<le> 47 \<and> 47 < length (src ?e3)"
    by code_simp
  have t3: "take 18 (src ?e3) @
            importBlock (map keptEntry ?ents @ [quoted ''os'']) @
            drop (47 + 1) (src ?e3) =
          ''package p'' @ [nl, nl] @
          ''import ('' @ [nl] @ [tab] @ quoted ''net/http'' @ [nl] @
          [tab] @ ''mytime '' @ quoted ''time'' @ [nl] @
          [tab] @ quoted ''os'' @ [nl] @ '')'' @ [nl, nl] @
          ''type T struct {'' @ [nl] @ [tab] @ ''A int'' @ [nl] @ ''}'' @ [nl]"
    by code_simp
  have r3: "importOutcome (AddImports ?e3 [(''os'', ''os'')]) =
     Inr (take 18 (src ?e3) @
            importBlock (map keptEntry ?ents @ [quoted ''os'']) @
            drop (47 + 1) (src ?e3), None)"
    using import_state_transitions [OF x3, where gd = ?gd3 and lp = 18 and rp = 47
        and entries = ?ents and p = "''os''"] h3
    by (simp add: importOutcome_def withImport_def)
  from r1 r2 r3 t1 t2 t3 show ?thesis
    by (simp only:)
qed

text \<open>
  Requests that add nothing: a request repeated in a second call; a request all of whose
  aliases are recorded; a request listing its entries twice does what the request does;
  and an alias recorded for an import spec of the file, its explicit name or else the last
  segment of its path literal without double quotes, counts as bound, whatever path is
  asked for.
\<close>

lemma import_idempotence:
  "(AddImports e required = Inr (e1, err) \<longrightarrow> AddImports e1 required = Inr (e1, None))
   \<and> (list_all (\<lambda>(a, p). existing (eimports e) a \<noteq> None) required \<longrightarrow>
        AddImports e required = Inr (e, None))
   \<and> AddImports e (required @ required) = AddImports e required
   \<and> ((Some n, pv) \<in> set (Imports f) \<longrightarrow>
        AddImports (newEditor f s) [(n, p)] = Inr (newEditor f s, None))
   \<and> ((None, pv) \<in> set (Imports f) \<longrightarrow>
        AddImports (newEditor f s) [(last (Split (Trim pv dq) (CHR ''/'')), p)] =
          Inr (newEditor f s, None))"
proof (intro conjI impI)
  assume first: "AddImports e required = Inr (e1, err)"
  then obtain im1 s1 where a: "add (eimports e) required (src e) = Inr (im1, s1, err)"
    and e1: "e1 = e\<lparr>src := s1, eimports := im1\<rparr>"
    by (auto simp: AddImports_def split: sum.splits)
  from add_state [OF a] have "existing im1 = fst (addLoop required (existing (eimports e)) [])"
    by simp
  then have "delta (existing (eimports e1)) required = []"
    by (simp add: e1 delta_after_addLoop)
  then show "AddImports e1 required = Inr (e1, None)"
    by (rule AddImports_nothing_new)
next
  assume "list_all (\<lambda>(a, p). existing (eimports e) a \<noteq> None) required"
  then have "delta (existing (eimports e)) required = []"
    by (simp add: delta_empty_iff)
  then show "AddImports e required = Inr (e, None)"
    by (rule AddImports_nothing_new)
next
  obtain ex toAdd where l: "addLoop required (existing (eimports e)) [] = (ex, toAdd)"
    by (cases "addLoop required (existing (eimports e)) []")
  have "delta ex required = []"
    using delta_after_addLoop [of required "existing (eimports e)" "[]"] l by simp
  then have "addLoop (required @ required) (existing (eimports e)) [] = (ex, toAdd)"
    by (simp add: addLoop_append l addLoop_nothing_new)
  with l show "AddImports e (required @ required) = AddImports e required"
    by (simp add: AddImports_def add_def)
next
  assume "(Some n, pv) \<in> set (Imports f)"
  then have "existing (eimports (newEditor f s)) n \<noteq> None"
    by (simp add: newEditor_def newImportManager_def existingFrom_named)
  then have "delta (existing (eimports (newEditor f s))) [(n, p)] = []"
    by (simp add: delta_def)
  then show "AddImports (newEditor f s) [(n, p)] = Inr (newEditor f s, None)"
    by (rule AddImports_nothing_new)
next
  let ?k = "last (Split (Trim pv dq) (CHR ''/''))"
  assume "(None, pv) \<in> set (Imports f)"
  then have "existing (eimports (newEditor f s)) ?k \<noteq> None"
    by (simp add: newEditor_def newImportManager_def existingFrom_unnamed)
  then have "delta (existing (eimports (newEditor f s))) [(?k, p)] = []"
    by (simp add: delta_def)
  then show "AddImports (newEditor f s) [(?k, p)] = Inr (newEditor f s, None)"
    by (rule AddImports_nothing_new)
qed

lemma import_idempotence_witness:
  "importOutcome (AddImports
      (withImport (newEditor exampleFile exampleSrc)
            (''package test'' @ [nl, nl] @
             ''import ('' @ [nl] @ [tab] @ quoted ''time'' @ [nl] @ '')'' @ [nl, nl] @
             ''type Example struct {'' @ [nl] @
             [tab] @ ''ID    int64'' @ [nl] @
             [tab] @ ''Total *int64'' @ [nl] @
             ''}'' @ [nl]) ''time'' ''time'') [(''time'', ''time'')]) =
     Inr (''package test'' @ [nl, nl] @
             ''import ('' @ [nl] @ [tab] @ quoted ''time'' @ [nl] @ '')'' @ [nl, nl] @
             ''type Example struct {'' @ [nl] @
             [tab] @ ''ID    int64'' @ [nl] @
             [tab] @ ''Total *int64'' @ [nl] @
             ''}'' @ [nl], None)
   \<and> AddImports (newEditor blockFile blockSrc) [(''fmt'', ''example.com/other/fmt'')] =
       Inr (newEditor blockFile blockSrc, None)
   \<and> AddImports (newEditor aliasedFile aliasedSrc) [(''mytime'', ''time'')] =
       Inr (newEditor aliasedFile aliasedSrc, None)
   \<and> last (Split (Trim (quoted ''fmt'') dq) (CHR ''/'')) = ''fmt''
   \<and> AddImports (newEditor blockFile blockSrc) [(''fmt'', ''fmt'')] =
       Inr (newEditor blockFile blockSrc, None)"
proof -
  let ?e = "newEditor exampleFile exampleSrc"
  let ?b = "newEditor blockFile blockSrc"
  let ?s1 = "''package test'' @ [nl, nl] @
             ''import ('' @ [nl] @ [tab] @ quoted ''time'' @ [nl] @ '')'' @ [nl, nl] @
             ''type Example struct {'' @ [nl] @
             [tab] @ ''ID    int64'' @ [nl] @
             [tab] @ ''Total *int64'' @ [nl] @
             ''}'' @ [nl]"
  have "AddImports (withImport ?e ?s1 ''time'' ''time'') [(''time'', ''time'')] =
          Inr (withImport ?e ?s1 ''time'' ''time'', None)"
    using import_idempotence [of ?e "[(''time'', ''time'')]" "withImport ?e ?s1 ''time'' ''time''" None]
      AddImports_example_time
    by simp
  then have 1: "importOutcome (AddImports (withImport ?e ?s1 ''time'' ''time'') [(''time'', ''time'')]) =
          Inr (?s1, None)"
    by (simp add: importOutcome_def withImport_def)
  have h2: "list_all (\<lambda>(a, p). existing (eimports ?b) a \<noteq> None) [(''fmt'', ''example.com/other/fmt'')]"
    by code_simp
  have 2: "AddImports ?b [(''fmt'', ''example.com/other/fmt'')] = Inr (?b, None)"
    using import_idempotence [of ?b "[(''fmt'', ''example.com/other/fmt'')]"] h2
    by simp
  have h3: "(Some ''mytime'', quoted ''time'') \<in> set (Imports aliasedFile)"
    by (simp add: aliasedFile_def)
  have 3: "AddImports (newEditor aliasedFile aliasedSrc) [(''mytime'', ''time'')] =
       Inr (newEditor aliasedFile aliasedSrc, None)"
    using import_idempotence [where n = "''mytime''" and pv = "quoted ''time''" and f = aliasedFile
        and s = aliasedSrc and p = "''time''"] h3
    by simp
  have k: "last (Split (Trim (quoted ''fmt'') dq) (CHR ''/'')) = ''fmt''"
    by code_simp
  have h4: "(None, quoted ''fmt'') \<in> set (Imports blockFile)"
    by (simp add: blockFile_def)
  have 4: "AddImports ?b [(''fmt'', ''fmt'')] = Inr (?b, None)"
    using import_idempotence [where pv = "quoted ''fmt''" and f = blockFile
        and s = blockSrc and p = "''fmt''"] h4 k
    by simp
  from 1 2 3 k 4 show ?thesis
    by (intro conjI)
qed

text \<open>
  C5: a required import whose alias is already bound in the file should count as
  satisfied and add nothing. On the sample whose import of \<open>time\<close> is written as a raw
  string literal, the file binds the alias \<open>time\<close>; \<open>newImportManager\<close> strips double quotes
  only and records the literal with its backquotes as the alias, so \<open>AddImports\<close> with
  \<open>time: time\<close> finds no alias \<open>time\<close> and turns the declaration into a block that imports
  \<open>time\<close> a second time.
\<close>

theorem raw_string_import_is_added_again:
  "importOutcome (AddImports (newEditor rawFile rawSrc) [(''time'', ''time'')]) =
     Inr (''package p'' @ [nl, nl] @
          ''import ('' @ [nl] @ [tab] @ [bq] @ ''time'' @ [bq] @ [nl] @
          [tab] @ quoted ''time'' @ [nl] @ '')'' @ [nl, nl] @
          ''type T struct {'' @ [nl] @ [tab] @ ''A int'' @ [nl] @ ''}'' @ [nl], None)
   \<and> existing (eimports (newEditor rawFile rawSrc)) ''time'' = None
   \<and> existing (eimports (newEditor rawFile rawSrc)) ([bq] @ ''time'' @ [bq]) =
       Some ([bq] @ ''time'' @ [bq])"
  by code_simp



section \<open>Properties of the import inference\<close>

lemma TrimPrefix_star: "TrimPrefix s ''*'' = stripStar s"
  by (cases s) (auto simp: TrimPrefix_def HasPrefix_def)

lemma splitQualifier_takeWhile:
  "splitQualifier s =
     (case dropWhile (\<lambda>c. c \<noteq> CHR ''.'') s of
        [] \<Rightarrow> None
      | d # rest \<Rightarrow> Some (takeWhile (\<lambda>c. c \<noteq> CHR ''.'') s, rest))"
proof (induction s)
  case Nil
  then show ?case by simp
next
  case (Cons c s)
  show ?case
  proof (cases "c = CHR ''.''")
    case True
    then show ?thesis by simp
  next
    case False
    show ?thesis
    proof (cases "dropWhile (\<lambda>c. c \<noteq> CHR ''.'') s")
      case Nil
      with Cons have "splitQualifier s = None"
        by (simp del: dropWhile_eq_Nil_conv)
      with False Nil show ?thesis
        by (simp del: dropWhile_eq_Nil_conv)
    next
      case (Cons d rest)
      with Cons.IH have "splitQualifier s = Some (takeWhile (\<lambda>c. c \<noteq> CHR ''.'') s, rest)"
        by simp
      with False Cons show ?thesis
        by simp
    qed
  qed
qed

lemma SplitN2_dot:
  "SplitN2 s (CHR ''.'') = (case splitQualifier s of None \<Rightarrow> [s] | Some (q, r) \<Rightarrow> [q, r])"
proof (cases "dropWhile (\<lambda>c. c \<noteq> CHR ''.'') s")
  case Nil
  then show ?thesis
    by (simp add: SplitN2_def splitQualifier_takeWhile del: dropWhile_eq_Nil_conv)
next
  case (Cons d rest)
  then show ?thesis
    by (simp add: SplitN2_def splitQualifier_takeWhile)
qed

lemma parseQualifiedType_infer:
  "parseQualifiedType typeStr =
     (case inferImport typeStr of None \<Rightarrow> ([], [], False) | Some (q, a) \<Rightarrow> (q, a, True))"
proof (cases "splitQualifier (stripStar typeStr)")
  case None
  then show ?thesis
    by (simp add: parseQualifiedType_def inferImport_def TrimPrefix_star SplitN2_dot)
next
  case (Some qr)
  then show ?thesis
    by (cases qr) (simp add: parseQualifiedType_def inferImport_def TrimPrefix_star SplitN2_dot)
qed

lemma HasPrefix_star: "HasPrefix s ''*'' \<longleftrightarrow> (s \<noteq> [] \<and> hd s = CHR ''*'')"
  by (cases s) (auto simp: HasPrefix_def)

lemma strip_after_check:
  "(if HasPrefix t ''*'' then TrimPrefix t ''*'' else t) = stripStar t"
  by (cases t) (auto simp: TrimPrefix_def HasPrefix_def)

lemma ParseTypeString_split:
  "ParseTypeString typeStr =
     (case splitQualifier (stripStar (TrimSpace typeStr)) of
        None \<Rightarrow> ([], stripStar (TrimSpace typeStr),
                 TrimSpace typeStr \<noteq> [] \<and> hd (TrimSpace typeStr) = CHR ''*'')
      | Some (q, r) \<Rightarrow> (q, r, TrimSpace typeStr \<noteq> [] \<and> hd (TrimSpace typeStr) = CHR ''*''))"
proof -
  let ?t = "TrimSpace typeStr"
  let ?u = "if HasPrefix ?t ''*'' then TrimPrefix ?t ''*'' else ?t"
  have u: "?u = stripStar ?t"
    by (rule strip_after_check)
  have "ParseTypeString typeStr =
      (case SplitN2 ?u (CHR ''.'') of
         [] \<Rightarrow> ([], ?u, HasPrefix ?t ''*'')
       | [p0] \<Rightarrow> ([], ?u, HasPrefix ?t ''*'')
       | [p0, p1] \<Rightarrow> (p0, p1, HasPrefix ?t ''*'')
       | p0 # p1 # p2 # ps \<Rightarrow> ([], ?u, HasPrefix ?t ''*''))"
    by (simp add: ParseTypeString_def Let_def split: list.splits)
  also have "\<dots> =
      (case SplitN2 (stripStar ?t) (CHR ''.'') of
         [] \<Rightarrow> ([], stripStar ?t, HasPrefix ?t ''*'')
       | [p0] \<Rightarrow> ([], stripStar ?t, HasPrefix ?t ''*'')
       | [p0, p1] \<Rightarrow> (p0, p1, HasPrefix ?t ''*'')
       | p0 # p1 # p2 # ps \<Rightarrow> ([], stripStar ?t, HasPrefix ?t ''*''))"
    by (simp only: u)
  also have "\<dots> =
      (case splitQualifier (stripStar ?t) of
         None \<Rightarrow> ([], stripStar ?t, HasPrefix ?t ''*'')
       | Some (q, r) \<Rightarrow> (q, r, HasPrefix ?t ''*''))"
    by (simp add: SplitN2_dot split: option.splits)
  finally show ?thesis
    by (simp only: HasPrefix_star)
qed

lemma inferImport_same: "inferImport t = Some (q, a) \<Longrightarrow> a = q"
  by (auto simp: inferImport_def split: option.splits)

lemma configImportsLoop_lookup:
  "configImportsLoop flds imps k =
     (if Some (k, k) \<in> set (map (\<lambda>(f, t). inferImport t) flds) then Some k else imps k)"
proof (induction flds arbitrary: imps)
  case Nil
  then show ?case by simp
next
  case (Cons fld flds)
  obtain f t where fld: "fld = (f, t)" by (cases fld)
  let ?later = "Some (k, k) \<in> set (map (\<lambda>(f, t). inferImport t) flds)"
  show ?case
  proof (cases "inferImport t")
    case None
    then have "configImportsLoop (fld # flds) imps k = configImportsLoop flds imps k"
      by (simp add: fld parseQualifiedType_infer)
    also have "\<dots> = (if ?later then Some k else imps k)"
      by (rule Cons)
    finally show ?thesis
      using None by (simp add: fld)
  next
    case (Some qa)
    then obtain q where q: "inferImport t = Some (q, q)"
      using inferImport_same [of t] by (cases qa) auto
    then have "configImportsLoop (fld # flds) imps k = configImportsLoop flds (imps(q \<mapsto> q)) k"
      by (simp add: fld parseQualifiedType_infer)
    also have "\<dots> = (if ?later then Some k else (imps(q \<mapsto> q)) k)"
      by (rule Cons)
    finally show ?thesis
      using q by (auto simp add: fld)
  qed
qed

lemma requiredImportsLoop_lookup:
  "requiredImportsLoop fieldEdits imps k =
     (if k \<noteq> [] \<and> Some (k, k) \<in> set (map (\<lambda>(f, t). inferImport (TrimSpace t)) fieldEdits)
      then Some k else imps k)"
proof (induction fieldEdits arbitrary: imps)
  case Nil
  then show ?case by simp
next
  case (Cons fld fieldEdits)
  obtain f t where fld: "fld = (f, t)" by (cases fld)
  let ?later = "k \<noteq> [] \<and> Some (k, k) \<in> set (map (\<lambda>(f, t). inferImport (TrimSpace t)) fieldEdits)"
  show ?case
  proof (cases "splitQualifier (stripStar (TrimSpace t))")
    case None
    then have i: "inferImport (TrimSpace t) = None"
      by (simp add: inferImport_def)
    from None have "requiredImportsLoop (fld # fieldEdits) imps k = requiredImportsLoop fieldEdits imps k"
      by (simp add: fld ParseTypeString_split)
    also have "\<dots> = (if ?later then Some k else imps k)"
      by (rule Cons)
    finally show ?thesis
      using i by (simp add: fld)
  next
    case (Some qr)
    obtain q r where qr: "qr = (q, r)" by (cases qr)
    from Some qr have i: "inferImport (TrimSpace t) = Some (q, q)"
      by (simp add: inferImport_def)
    show ?thesis
    proof (cases "q = []")
      case True
      with Some qr
      have "requiredImportsLoop (fld # fieldEdits) imps k = requiredImportsLoop fieldEdits imps k"
        by (simp add: fld ParseTypeString_split)
      also have "\<dots> = (if ?later then Some k else imps k)"
        by (rule Cons)
      finally show ?thesis
        using i True by (auto simp add: fld)
    next
      case False
      with Some qr
      have "requiredImportsLoop (fld # fieldEdits) imps k =
            requiredImportsLoop fieldEdits (imps(q \<mapsto> q)) k"
        by (simp add: fld ParseTypeString_split)
      also have "\<dots> = (if ?later then Some k else (imps(q \<mapsto> q)) k)"
        by (rule Cons)
      finally show ?thesis
        using i False by (auto simp add: fld)
    qed
  qed
qed

text \<open>
  C8, as stated: for every type string the inference strips one leading \<open>*\<close>, splits on
  the first \<open>.\<close> and takes the qualifier as alias and path. For the type string
  \<open>" *time.Time"\<close>, with a space in front, that gives the qualifier \<open>" *time"\<close>, and
  \<open>parseQualifiedType\<close> returns it; \<open>ParseTypeString\<close> trims the space first, strips the
  marker and returns \<open>time\<close>, which \<open>RequiredImports\<close> records.
\<close>

theorem inference_trims_white_space:
  "ParseTypeString '' *time.Time'' = (''time'', ''Time'', True)
   \<and> RequiredImports [(''At'', '' *time.Time'')] ''time'' = Some ''time''
   \<and> inferImport '' *time.Time'' = Some ('' *time'', '' *time'')
   \<and> parseQualifiedType '' *time.Time'' = ('' *time'', '' *time'', True)"
  by code_simp

text \<open>
  C8, amended: \<open>parseQualifiedType\<close>, and with it \<open>TypeConfig.Imports\<close>, strips one leading
  \<open>*\<close>, splits on the first \<open>.\<close> and, when there is one, binds the qualifier as alias to
  the qualifier as path; a type string without \<open>.\<close> requires nothing. \<open>ParseTypeString\<close>
  does the same to the type string trimmed of surrounding white space, and
  \<open>RequiredImports\<close> binds its qualifier unless it is empty.
\<close>

theorem import_inference:
  "parseQualifiedType typeStr =
     (case inferImport typeStr of None \<Rightarrow> ([], [], False) | Some (q, a) \<Rightarrow> (q, a, True))
   \<and> configImports flds k =
       (if Some (k, k) \<in> set (map (\<lambda>(f, t). inferImport t) flds) then Some k else None)
   \<and> ParseTypeString typeStr =
       (case splitQualifier (stripStar (TrimSpace typeStr)) of
          None \<Rightarrow> ([], stripStar (TrimSpace typeStr),
                   TrimSpace typeStr \<noteq> [] \<and> hd (TrimSpace typeStr) = CHR ''*'')
        | Some (q, r) \<Rightarrow> (q, r, TrimSpace typeStr \<noteq> [] \<and> hd (TrimSpace typeStr) = CHR ''*''))
   \<and> RequiredImports fieldEdits k =
       (if k \<noteq> [] \<and> Some (k, k) \<in> set (map (\<lambda>(f, t). inferImport (TrimSpace t)) fieldEdits)
        then Some k else None)"
  using parseQualifiedType_infer [of typeStr] ParseTypeString_split [of typeStr]
  by (simp add: configImports_def RequiredImports_def configImportsLoop_lookup
      requiredImportsLoop_lookup)

end
